theory Spec2Isabelle
  imports Complex_Main "HOL-Library.Stream"
begin

section \<open>Color Match Runner: the game component\<close>

text \<open>
  The repository holds two versions of the component \<open>ColorMatchRunner\<close>:
  \<^verbatim>\<open>src/components/GameCanvas.tsx\<close> and a second file of unknown name
  (\<^verbatim>\<open>part_000\<close>), which adds the level-up pause.
  Both are embedded; where they differ a definition takes the version as its first
  argument.

  JavaScript numbers that only ever hold integers in the program (score, level, colour
  indices, the spawn timer, particle lifetimes) are \<open>int\<close>; positions and speeds
  are \<open>real\<close> (floating-point rounding is not modelled).
\<close>

datatype Variant = GameCanvas_tsx | Part_000

subsection \<open>JavaScript primitives used by the component\<close>

text \<open>\<^verbatim>\<open>xs.slice(0, e)\<close>: a negative end counts from the end of the array.\<close>

definition slice0 :: "'a list \<Rightarrow> int \<Rightarrow> 'a list" where
  "slice0 xs e =
     (let n = int (length xs);
          k = (if e < 0 then max (n + e) 0 else min e n)
      in take (nat k) xs)"

text \<open>\<^verbatim>\<open>xs[i]\<close>: \<open>None\<close> is \<^verbatim>\<open>undefined\<close>.\<close>

definition index :: "'a list \<Rightarrow> int \<Rightarrow> 'a option" where
  "index xs i = (if 0 \<le> i \<and> i < int (length xs) then Some (xs ! nat i) else None)"

text \<open>\<^verbatim>\<open>s.startsWith(p)\<close>\<close>

definition startsWith :: "string \<Rightarrow> string \<Rightarrow> bool" where
  "startsWith s p = (take (length p) s = p)"

text \<open>The decimal rendering of an integer inside a template literal or a \<^verbatim>\<open>+\<close> on strings.\<close>

fun natToString :: "nat \<Rightarrow> string" where
  "natToString n =
     (if n < 10 then [''0123456789'' ! n]
      else natToString (n div 10) @ [''0123456789'' ! (n mod 10)])"

declare natToString.simps [simp del]

definition numToString :: "int \<Rightarrow> string" where
  "numToString i = (if i < 0 then CHR ''-'' # natToString (nat (- i)) else natToString (nat i))"

definition newline :: string where
  "newline = [CHR 0x0A]"

text \<open>What the program stops with: reading a property of \<^verbatim>\<open>undefined\<close>, or a colour
  index that would become \<^verbatim>\<open>NaN\<close> (a remainder by zero), which the index type of this
  model does not hold.\<close>

datatype error = TypeError | NaNIndex

subsection \<open>Data\<close>

record Color =
  name :: string
  "value" :: string
  shadow :: string

definition ALL_COLORS :: "Color list" where
  "ALL_COLORS =
     [\<lparr>name = ''Red'', value = ''#ff3b30'', shadow = ''#ff3b3080''\<rparr>,
      \<lparr>name = ''Blue'', value = ''#007aff'', shadow = ''#007aff80''\<rparr>,
      \<lparr>name = ''Yellow'', value = ''#ffcc00'', shadow = ''#ffcc0080''\<rparr>,
      \<lparr>name = ''Green'', value = ''#34c759'', shadow = ''#34c75980''\<rparr>,
      \<lparr>name = ''Purple'', value = ''#af52de'', shadow = ''#af52de80''\<rparr>]"

record Ball =
  ball_x :: real
  ball_y :: real
  ball_colorIndex :: int
  ball_radius :: real
  ball_bounceOffset :: real
  ball_bounceSpeed :: real

record Obstacle =
  obs_x :: real
  obs_y :: real
  obs_width :: real
  obs_height :: real
  obs_colorIndex :: int
  obs_passed :: bool

record Particle =
  part_x :: real
  part_y :: real
  part_vx :: real
  part_vy :: real
  part_life :: int
  part_color :: string

text \<open>
  One record for the whole component: the fields of \<^verbatim>\<open>gameStateRef.current\<close>
  (\<open>ball\<close> to \<open>particles\<close>), the React state hooks (\<open>score\<close> to \<open>highScore\<close>;
  the hook \<^verbatim>\<open>gameStarted\<close> is \<open>gameStartedHook\<close>, since the ref has a field of the same
  name), and \<open>rng\<close>, the results that the coming calls of \<^verbatim>\<open>Math.random()\<close> return.

  A state setter writes its field at once. A callback reads the hooks through the values
  its closure captured at the last render; these are passed as arguments (\<open>score0\<close>,
  \<open>level0\<close>, \<open>highScore0\<close>), so a read never sees a write of the same frame, as in
  React.
\<close>

record Game =
  ball :: Ball
  obstacles :: "Obstacle list"
  gameSpeed :: real
  obstacleTimer :: int
  gameRunning :: bool
  gameStarted :: bool
  particles :: "Particle list"
  score :: int
  level :: int
  showPopup :: bool
  popupText :: string
  gameStartedHook :: bool
  highScore :: int
  rng :: "real stream"

definition canvasWidth :: real where
  "canvasWidth = 320"

definition canvasHeight :: real where
  "canvasHeight = 600"

text \<open>\<^verbatim>\<open>Math.random()\<close>\<close>

definition random :: "Game \<Rightarrow> real \<times> Game" where
  "random g = (shd (rng g), g\<lparr>rng := stl (rng g)\<rparr>)"

subsection \<open>Level and colours\<close>

text \<open>\<^verbatim>\<open>Math.min(Math.floor(score / 200) + 1, 5)\<close>, as \<open>animate\<close> and the score updater
  compute it.\<close>

definition newLevel :: "int \<Rightarrow> int" where
  "newLevel score0 = min (\<lfloor>real_of_int score0 / 200\<rfloor> + 1) 5"

definition getCurrentLevelColors :: "int \<Rightarrow> Color list" where
  "getCurrentLevelColors currentLevel = slice0 ALL_COLORS (min (currentLevel + 1) 5)"

text \<open>\<open>changeColor\<close>: nothing happens unless the game is running. \<^verbatim>\<open>%\<close> is the
  remainder of the truncated division; by zero it is \<^verbatim>\<open>NaN\<close>.\<close>

definition jsRem :: "int \<Rightarrow> int \<Rightarrow> int" where
  "jsRem a b = sgn a * (\<bar>a\<bar> mod \<bar>b\<bar>)"

definition changeColor :: "int \<Rightarrow> Game \<Rightarrow> error + Game" where
  "changeColor level0 g =
     (if \<not> gameRunning g then Inr g
      else let colors = getCurrentLevelColors level0 in
        if length colors = 0 then Inl NaNIndex
        else Inr (g\<lparr>ball := (ball g)\<lparr>ball_colorIndex :=
                      jsRem (ball_colorIndex (ball g) + 1) (int (length colors))\<rparr>\<rparr>))"

text \<open>The advance-colour command given \<open>n\<close> times in a row, the level staying as it is.\<close>

fun changeColorTimes :: "nat \<Rightarrow> int \<Rightarrow> Game \<Rightarrow> error + Game" where
  "changeColorTimes 0 level0 g = Inr g"
| "changeColorTimes (Suc n) level0 g =
     (case changeColor level0 g of Inl e \<Rightarrow> Inl e | Inr g' \<Rightarrow> changeColorTimes n level0 g')"

subsection \<open>Particles and the end of a game\<close>

text \<open>\<open>createParticles\<close>: the loop body draws four random numbers, in the order of the
  object literal, and pushes one particle; \<open>pushParticles n\<close> is \<open>n\<close> runs of the body.\<close>

fun pushParticles :: "nat \<Rightarrow> real \<Rightarrow> real \<Rightarrow> string \<Rightarrow> bool \<Rightarrow> Game \<Rightarrow> Game" where
  "pushParticles 0 x y color isSuccess g = g"
| "pushParticles (Suc n) x y color isSuccess g =
     (let (r1, g1) = random g;
          (r2, g2) = random g1;
          (r3, g3) = random g2;
          (r4, g4) = random g3;
          p = \<lparr>part_x = x + (r1 - 0.5) * 40,
               part_y = y + (r2 - 0.5) * 40,
               part_vx = (r3 - 0.5) * (if isSuccess then 8 else 4),
               part_vy = (r4 - 0.5) * (if isSuccess then 8 else 4) - 2,
               part_life = (if isSuccess then 60 else 30),
               part_color = (if isSuccess then color else ''#ff4444'')\<rparr>
      in pushParticles n x y color isSuccess (g4\<lparr>particles := particles g4 @ [p]\<rparr>))"

definition createParticles :: "real \<Rightarrow> real \<Rightarrow> string \<Rightarrow> bool \<Rightarrow> Game \<Rightarrow> Game" where
  "createParticles x y color isSuccess g =
     (let particleCount = (if isSuccess then 15 else 8)
      in pushParticles particleCount x y color isSuccess g)"

definition gameOverText :: "Variant \<Rightarrow> int \<Rightarrow> int \<Rightarrow> int \<Rightarrow> string" where
  "gameOverText v score0 newHighScore level0 =
     ''Game Over!'' @ newline @
     ''Score: '' @ numToString score0 @ newline @
     ''High Score: '' @ numToString newHighScore @ newline @
     (case v of GameCanvas_tsx \<Rightarrow> ''Level Reached: '' | Part_000 \<Rightarrow> ''Level: '') @
     numToString level0"

definition handleGameOver :: "Variant \<Rightarrow> int \<Rightarrow> int \<Rightarrow> int \<Rightarrow> Game \<Rightarrow> Game" where
  "handleGameOver v score0 level0 highScore0 g =
     (let g1 = g\<lparr>gameRunning := False\<rparr>;
          newHighScore = max score0 highScore0;
          g2 = g1\<lparr>highScore := newHighScore\<rparr>;
          g3 = g2\<lparr>popupText := gameOverText v score0 newHighScore level0\<rparr>
      in g3\<lparr>showPopup := True\<rparr>)"

subsection \<open>Scoring\<close>

text \<open>The argument of \<^verbatim>\<open>setScore\<close> on a correct match. In \<^verbatim>\<open>GameCanvas.tsx\<close> it is
  \<^verbatim>\<open>(prev) => prev + 10\<close>; in \<^verbatim>\<open>part_000\<close> the updater also opens the level-up popup.
  The updater runs where \<^verbatim>\<open>setScore\<close> is called.\<close>

definition levelUpText :: "int \<Rightarrow> int \<Rightarrow> int \<Rightarrow> string" where
  "levelUpText level0 newScore newLevel0 =
     ''Level '' @ numToString level0 @ '' Complete!'' @ newline @
     ''Score: '' @ numToString newScore @ newline @
     ''Now for Level '' @ numToString newLevel0 @ '': '' @
       numToString (min (newLevel0 + 1) 5) @ '' Colors'' @ newline @
     ''and speed increased!''"

definition scoreMatch :: "Variant \<Rightarrow> int \<Rightarrow> Game \<Rightarrow> Game" where
  "scoreMatch v level0 g =
     (case v of
        GameCanvas_tsx \<Rightarrow> g\<lparr>score := score g + 10\<rparr>
      | Part_000 \<Rightarrow>
          (let prevScore = score g;
               newScore = prevScore + 10;
               newLevel0 = newLevel newScore;
               g1 = (if newLevel0 > level0
                     then g\<lparr>popupText := levelUpText level0 newScore newLevel0,
                            showPopup := True,
                            gameRunning := False,
                            level := newLevel0\<rparr>
                     else g)
           in g1\<lparr>score := newScore\<rparr>))"

subsection \<open>One obstacle in one frame\<close>

text \<open>The callback of \<^verbatim>\<open>state.obstacles.filter\<close>. It returns whether the obstacle is
  kept, the obstacle as the callback leaves it, and the game.\<close>

definition collision :: "Ball \<Rightarrow> real \<Rightarrow> Obstacle \<Rightarrow> bool" where
  "collision b bounceHeight ob =
     (let ballLeft = ball_x b - ball_radius b;
          ballRight = ball_x b + ball_radius b;
          ballTop = ball_y b - ball_radius b + bounceHeight;
          ballBottom = ball_y b + ball_radius b + bounceHeight;
          obstacleLeft = obs_x ob;
          obstacleRight = obs_x ob + obs_width ob;
          obstacleTop = obs_y ob;
          obstacleBottom = obs_y ob + obs_height ob
      in ballRight > obstacleLeft \<and> ballLeft < obstacleRight \<and>
         ballBottom > obstacleTop \<and> ballTop < obstacleBottom)"

definition markPassed :: "Obstacle \<Rightarrow> Game \<Rightarrow> bool \<times> Obstacle \<times> Game" where
  "markPassed ob g =
     (let ob1 = (if \<not> obs_passed ob \<and> obs_y ob > ball_y (ball g) + ball_radius (ball g) + 20
                 then ob\<lparr>obs_passed := True\<rparr> else ob)
      in (obs_y ob1 < canvasHeight + 50, ob1, g))"

definition updateObstacle ::
  "Variant \<Rightarrow> int \<Rightarrow> int \<Rightarrow> int \<Rightarrow> real \<Rightarrow> Obstacle \<Rightarrow> Game \<Rightarrow> error + (bool \<times> Obstacle \<times> Game)"
where
  "updateObstacle v score0 level0 highScore0 bounceHeight obstacle g =
     (let colors = getCurrentLevelColors level0;
          ob = obstacle\<lparr>obs_y := obs_y obstacle + gameSpeed g\<rparr>
      in if collision (ball g) bounceHeight ob \<and> \<not> obs_passed ob then
           if ball_colorIndex (ball g) = obs_colorIndex ob then
             (let g1 = scoreMatch v level0 g
              in case index colors (obs_colorIndex ob) of
                   None \<Rightarrow> Inl TypeError
                 | Some c \<Rightarrow>
                     (let g2 = createParticles (obs_x ob + obs_width ob / 2)
                                 (obs_y ob + obs_height ob / 2) (value c) True g1
                      in Inr (markPassed (ob\<lparr>obs_passed := True\<rparr>) g2)))
           else
             (let g1 = createParticles (ball_x (ball g)) (ball_y (ball g)) ''#ff4444'' False g;
                  g2 = handleGameOver v score0 level0 highScore0 g1
              in Inr (False, ob, g2))
         else Inr (markPassed ob g))"

fun filterObstacles ::
  "Variant \<Rightarrow> int \<Rightarrow> int \<Rightarrow> int \<Rightarrow> real \<Rightarrow> Obstacle list \<Rightarrow> Game \<Rightarrow> error + (Obstacle list \<times> Game)"
where
  "filterObstacles v score0 level0 highScore0 bounceHeight [] g = Inr ([], g)"
| "filterObstacles v score0 level0 highScore0 bounceHeight (ob # obs) g =
     (case updateObstacle v score0 level0 highScore0 bounceHeight ob g of
        Inl e \<Rightarrow> Inl e
      | Inr (keep, ob', g1) \<Rightarrow>
          (case filterObstacles v score0 level0 highScore0 bounceHeight obs g1 of
             Inl e \<Rightarrow> Inl e
           | Inr (obs', g2) \<Rightarrow> Inr (if keep then ob' # obs' else obs', g2)))"

subsection \<open>Spawning, particles, drawing\<close>

text \<open>\<^verbatim>\<open>Math.max(80 - Math.floor(score / 50), 40)\<close> in \<^verbatim>\<open>GameCanvas.tsx\<close>,
  \<^verbatim>\<open>Math.max(100 - Math.floor(score / 200), 50)\<close> in \<^verbatim>\<open>part_000\<close>.\<close>

definition obstacleFrequency :: "Variant \<Rightarrow> int \<Rightarrow> int" where
  "obstacleFrequency v score0 =
     (case v of
        GameCanvas_tsx \<Rightarrow> max (80 - \<lfloor>real_of_int score0 / 50\<rfloor>) 40
      | Part_000 \<Rightarrow> max (100 - \<lfloor>real_of_int score0 / 200\<rfloor>) 50)"

text \<open>The object pushed on \<^verbatim>\<open>state.obstacles\<close>, with the random numbers it consumes.\<close>

definition newObstacle :: "Variant \<Rightarrow> Color list \<Rightarrow> Game \<Rightarrow> Obstacle \<times> Game" where
  "newObstacle v colors g =
     (case v of
        GameCanvas_tsx \<Rightarrow>
          (let (r1, g1) = random g;
               (r2, g2) = random g1
           in (\<lparr>obs_x = r1 * (canvasWidth - 80) + 40,
                obs_y = - 50,
                obs_width = 60,
                obs_height = 30,
                obs_colorIndex = \<lfloor>r2 * real (length colors)\<rfloor>,
                obs_passed = False\<rparr>, g2))
      | Part_000 \<Rightarrow>
          (let gateWidth = 140;
               gateHeight = 80;
               centerX = canvasWidth / 2 - gateWidth / 2;
               (r, g1) = random g
           in (\<lparr>obs_x = centerX,
                obs_y = - gateHeight,
                obs_width = gateWidth,
                obs_height = gateHeight,
                obs_colorIndex = \<lfloor>r * real (length colors)\<rfloor>,
                obs_passed = False\<rparr>, g1)))"

definition generateObstacles :: "Variant \<Rightarrow> int \<Rightarrow> Color list \<Rightarrow> Game \<Rightarrow> Game" where
  "generateObstacles v score0 colors g =
     (let g1 = g\<lparr>obstacleTimer := obstacleTimer g + 1\<rparr>
      in if obstacleTimer g1 \<ge> obstacleFrequency v score0 then
           (let (ob, g2) = newObstacle v colors g1;
                g3 = g2\<lparr>obstacles := obstacles g2 @ [ob]\<rparr>
            in g3\<lparr>obstacleTimer := 0\<rparr>)
         else g1)"

text \<open>The callback of \<^verbatim>\<open>state.particles.filter\<close> changes the particle and then
  answers whether it stays.\<close>

definition moveParticle :: "Particle \<Rightarrow> Particle" where
  "moveParticle p =
     p\<lparr>part_x := part_x p + part_vx p,
       part_y := part_y p + part_vy p,
       part_vy := part_vy p + 0.3,
       part_life := part_life p - 1\<rparr>"

definition updateParticles :: "Particle list \<Rightarrow> Particle list" where
  "updateParticles ps = filter (\<lambda>p. part_life p > 0) (map moveParticle ps)"

text \<open>The drawing code. It paints on the canvas, which is not part of the game, but two
  things in it matter to the game. It reads \<^verbatim>\<open>colors[obstacle.colorIndex].value\<close> for
  every obstacle and \<^verbatim>\<open>colors[state.ball.colorIndex].shadow\<close> for the ball, which throws
  when the colour is \<^verbatim>\<open>undefined\<close>. And in \<^verbatim>\<open>GameCanvas.tsx\<close> the loop over the
  obstacles first writes the position and size of the gate it is about to paint into the
  obstacle (\<^verbatim>\<open>obstacle.x = centerX; // always center\<close>).\<close>

definition placeGate :: "Variant \<Rightarrow> Obstacle \<Rightarrow> Obstacle" where
  "placeGate v ob =
     (case v of
        GameCanvas_tsx \<Rightarrow>
          (let gateWidth = 120;
               gateHeight = 60;
               centerX = canvasWidth / 2 - gateWidth / 2
           in ob\<lparr>obs_x := centerX, obs_width := gateWidth, obs_height := gateHeight\<rparr>)
      | Part_000 \<Rightarrow> ob)"

fun drawObstacles :: "Variant \<Rightarrow> Color list \<Rightarrow> Obstacle list \<Rightarrow> error + Obstacle list" where
  "drawObstacles v colors [] = Inr []"
| "drawObstacles v colors (ob # obs) =
     (let ob1 = placeGate v ob
      in case index colors (obs_colorIndex ob1) of
           None \<Rightarrow> Inl TypeError
         | Some c \<Rightarrow>
             (case drawObstacles v colors obs of
                Inl e \<Rightarrow> Inl e
              | Inr obs' \<Rightarrow> Inr (ob1 # obs')))"

definition draw :: "Variant \<Rightarrow> Color list \<Rightarrow> Game \<Rightarrow> error + Game" where
  "draw v colors g =
     (case drawObstacles v colors (obstacles g) of
        Inl e \<Rightarrow> Inl e
      | Inr obs' \<Rightarrow>
          (case index colors (ball_colorIndex (ball g)) of
             None \<Rightarrow> Inl TypeError
           | Some c \<Rightarrow> Inr (g\<lparr>obstacles := obs'\<rparr>)))"

subsection \<open>One frame\<close>

text \<open>\<open>speedStep\<close> is the factor of \<^verbatim>\<open>Math.floor(score / 100)\<close> in the speed.
  \<open>frame\<close> is the body of \<open>animate\<close>. \<^verbatim>\<open>part_000\<close> has a second copy of it
  inside \<open>handlePopupAction\<close>, the same but for the lines that set the level from the score;
  \<open>syncLevel\<close> tells the copies apart. The canvas is 320 by 600.\<close>

definition speedStep :: "Variant \<Rightarrow> real" where
  "speedStep v = (case v of GameCanvas_tsx \<Rightarrow> 0.5 | Part_000 \<Rightarrow> 0.25)"

definition frame :: "Variant \<Rightarrow> bool \<Rightarrow> int \<Rightarrow> int \<Rightarrow> int \<Rightarrow> Game \<Rightarrow> error + Game" where
  "frame v syncLevel score0 level0 highScore0 g =
     (if \<not> gameRunning g then Inr g
      else
        let colors = getCurrentLevelColors level0;
            baseSpeed = 2;
            speedIncrease = real_of_int \<lfloor>real_of_int score0 / 100\<rfloor> * speedStep v;
            g1 = g\<lparr>gameSpeed := baseSpeed + speedIncrease\<rparr>;
            newLevel0 = newLevel score0;
            g2 = (if syncLevel \<and> newLevel0 \<noteq> level0 then g1\<lparr>level := newLevel0\<rparr> else g1);
            g3 = g2\<lparr>ball := (ball g2)\<lparr>ball_bounceOffset :=
                      ball_bounceOffset (ball g2) + ball_bounceSpeed (ball g2)\<rparr>\<rparr>;
            bounceHeight = sin (ball_bounceOffset (ball g3)) * 5;
            g4 = generateObstacles v score0 colors g3
        in case filterObstacles v score0 level0 highScore0 bounceHeight (obstacles g4) g4 of
             Inl e \<Rightarrow> Inl e
           | Inr (obs', g5) \<Rightarrow>
               (let g6 = g5\<lparr>obstacles := obs'\<rparr>;
                    g7 = g6\<lparr>particles := updateParticles (particles g6)\<rparr>
                in draw v colors g7))"

text \<open>A frame of the main loop runs with the hook values of the last render.\<close>

definition animate :: "Variant \<Rightarrow> Game \<Rightarrow> error + Game" where
  "animate v g = frame v True (score g) (level g) (highScore g) g"

subsection \<open>Buttons and input\<close>

text \<open>The assignments of \<open>handlePopupAction\<close>. In \<^verbatim>\<open>GameCanvas.tsx\<close> there is one
  reset; \<^verbatim>\<open>part_000\<close> tells the game-over popup from the level-up popup by its text.\<close>

definition popupReset :: "Variant \<Rightarrow> Game \<Rightarrow> Game" where
  "popupReset v g =
     (case v of
        GameCanvas_tsx \<Rightarrow>
          g\<lparr>showPopup := False,
            score := 0,
            level := 1,
            obstacles := [],
            particles := [],
            ball := (ball g)\<lparr>ball_colorIndex := 0\<rparr>,
            gameSpeed := 2,
            obstacleTimer := 0,
            gameRunning := True\<rparr>
      | Part_000 \<Rightarrow>
          (let g1 = g\<lparr>showPopup := False\<rparr>
           in if startsWith (popupText g) ''Game Over'' then
                g1\<lparr>score := 0,
                   obstacles := [],
                   particles := [],
                   ball := (ball g1)\<lparr>ball_colorIndex := 0\<rparr>,
                   gameSpeed := 2 + real_of_int \<lfloor>real_of_int ((level g - 1) * 100) / 100\<rfloor> * 0.25,
                   obstacleTimer := 0,
                   gameRunning := True,
                   gameStarted := True\<rparr>
              else
                g1\<lparr>gameRunning := True,
                   gameStarted := True,
                   obstacles := [],
                   particles := [],
                   obstacleTimer := 0\<rparr>))"

text \<open>In \<^verbatim>\<open>part_000\<close> the handler then starts its own loop, whose first frame runs
  inside the handler, with the score, level and high score of the render before the click
  (the canvas exists whenever the popup is on screen).\<close>

definition handlePopupAction :: "Variant \<Rightarrow> Game \<Rightarrow> error + Game" where
  "handlePopupAction v g =
     (case v of
        GameCanvas_tsx \<Rightarrow> Inr (popupReset v g)
      | Part_000 \<Rightarrow> frame v False (score g) (level g) (highScore g) (popupReset v g))"

definition startGame :: "Game \<Rightarrow> Game" where
  "startGame g = g\<lparr>gameStartedHook := True, gameStarted := True, gameRunning := True\<rparr>"

text \<open>The three input handlers (an accepted key, a touch, a click on the canvas) do the
  same.\<close>

definition handleInput :: "Game \<Rightarrow> error + Game" where
  "handleInput g =
     (if \<not> gameStartedHook g \<or> \<not> gameRunning g then Inr g else changeColor (level g) g)"

subsection \<open>The session and its events\<close>

text \<open>The state of the session, read off the fields as the program itself tells the
  states apart: the start screen is shown until the hook \<^verbatim>\<open>gameStarted\<close> is set, and a
  stopped game is over when the popup text starts with \<^verbatim>\<open>Game Over\<close>.\<close>

datatype Session = NotStarted | Running | PausedLevelUp | Ended

definition session :: "Game \<Rightarrow> Session" where
  "session g =
     (if \<not> gameStartedHook g then NotStarted
      else if gameRunning g then Running
      else if startsWith (popupText g) ''Game Over'' then Ended
      else PausedLevelUp)"

text \<open>What can happen to the component: the display asks for a frame (the loop only runs
  once the game has started), the player gives input, or presses the button of the popup or
  of the start screen (each exists only while it is shown).\<close>

datatype Event = Frame | Input | PopupButton | StartButton

definition step :: "Variant \<Rightarrow> Event \<Rightarrow> Game \<Rightarrow> error + Game" where
  "step v e g =
     (case e of
        Frame \<Rightarrow> (if gameStartedHook g then animate v g else Inr g)
      | Input \<Rightarrow> handleInput g
      | PopupButton \<Rightarrow> (if gameStartedHook g \<and> showPopup g then handlePopupAction v g else Inr g)
      | StartButton \<Rightarrow> (if gameStartedHook g then Inr g else Inr (startGame g)))"

fun run :: "Variant \<Rightarrow> Event list \<Rightarrow> Game \<Rightarrow> error + Game" where
  "run v [] g = Inr g"
| "run v (e # es) g = (case step v e g of Inl x \<Rightarrow> Inl x | Inr g' \<Rightarrow> run v es g')"

text \<open>The points one gate earns over the frames it lives through. Each entry is the
  context of one call of the filter callback on the gate: the version, the captured score,
  level and high score, the bounce height and the game at that moment.\<close>

fun gateAwards :: "(Variant \<times> int \<times> int \<times> int \<times> real \<times> Game) list \<Rightarrow> Obstacle \<Rightarrow> int" where
  "gateAwards [] ob = 0"
| "gateAwards ((v, score0, level0, highScore0, bounceHeight, g) # fs) ob =
     (case updateObstacle v score0 level0 highScore0 bounceHeight ob g of
        Inl e \<Rightarrow> 0
      | Inr (keep, ob', g') \<Rightarrow> (score g' - score g) + (if keep then gateAwards fs ob' else 0))"

subsection \<open>Initial state and example data\<close>

text \<open>The component as it is mounted: the initial value of the ref and of the hooks.\<close>

definition initialGame :: "real stream \<Rightarrow> Game" where
  "initialGame r =
     \<lparr>ball = \<lparr>ball_x = 150, ball_y = 500, ball_colorIndex = 0, ball_radius = 20,
              ball_bounceOffset = 0, ball_bounceSpeed = 0.15\<rparr>,
      obstacles = [],
      gameSpeed = 2,
      obstacleTimer = 0,
      gameRunning = True,
      gameStarted = False,
      particles = [],
      score = 0,
      level = 1,
      showPopup = False,
      popupText = [],
      gameStartedHook = False,
      highScore = 0,
      rng = r\<rparr>"

text \<open>Data for the examples: a started game with a given score, level and ball colour,
  whose random source always answers one half, and a gate as \<^verbatim>\<open>part_000\<close> spawns it,
  at a given height and with a given colour.\<close>

definition playing :: "int \<Rightarrow> int \<Rightarrow> int \<Rightarrow> Game" where
  "playing s l c =
     (startGame (initialGame (sconst (1 / 2))))
       \<lparr>score := s, level := l,
        ball := (ball (initialGame (sconst (1 / 2))))\<lparr>ball_colorIndex := c\<rparr>\<rparr>"

definition gateAt :: "real \<Rightarrow> int \<Rightarrow> Obstacle" where
  "gateAt y c =
     \<lparr>obs_x = 90, obs_y = y, obs_width = 140, obs_height = 80, obs_colorIndex = c,
      obs_passed = False\<rparr>"

section \<open>Auxiliary facts\<close>

subsection \<open>Arithmetic of the level and of the palette\<close>

lemma floor_div_numeral: "\<lfloor>real_of_int s / numeral k\<rfloor> = s div numeral k"
  using floor_divide_of_int_eq [of s "numeral k", where ?'a = real] by simp

lemma newLevel_div: "newLevel s = min (s div 200 + 1) 5"
  by (simp add: newLevel_def floor_div_numeral)

lemma length_ALL_COLORS: "length ALL_COLORS = 5"
  by (simp add: ALL_COLORS_def)

lemma length_getCurrentLevelColors:
  "1 \<le> L \<Longrightarrow> int (length (getCurrentLevelColors L)) = min (L + 1) 5"
  by (auto simp: getCurrentLevelColors_def slice0_def Let_def length_ALL_COLORS min_def)

lemma jsRem_nonneg: "0 \<le> a \<Longrightarrow> 0 < b \<Longrightarrow> jsRem a b = a mod b"
  by (cases "a = 0") (simp_all add: jsRem_def)

lemma changeColor_running:
  assumes "gameRunning g" "1 \<le> level0" "0 \<le> ball_colorIndex (ball g)"
  shows "changeColor level0 g =
     Inr (g\<lparr>ball := (ball g)\<lparr>ball_colorIndex :=
        (ball_colorIndex (ball g) + 1) mod int (length (getCurrentLevelColors level0))\<rparr>\<rparr>)"
proof -
  have "0 < int (length (getCurrentLevelColors level0))"
    using length_getCurrentLevelColors [OF assms(2)] assms(2) by linarith
  then show ?thesis
    using assms by (simp add: changeColor_def Let_def jsRem_nonneg)
qed

lemma changeColorTimes_add:
  assumes "gameRunning g" "1 \<le> level0" "0 \<le> ball_colorIndex (ball g)"
  shows "changeColorTimes k level0 g =
     Inr (if k = 0 then g else g\<lparr>ball := (ball g)\<lparr>ball_colorIndex :=
        (ball_colorIndex (ball g) + int k) mod int (length (getCurrentLevelColors level0))\<rparr>\<rparr>)"
  using assms
proof (induction k arbitrary: g)
  case 0
  then show ?case by simp
next
  case (Suc k)
  let ?n = "int (length (getCurrentLevelColors level0))"
  let ?g' = "g\<lparr>ball := (ball g)\<lparr>ball_colorIndex := (ball_colorIndex (ball g) + 1) mod ?n\<rparr>\<rparr>"
  have n: "0 < ?n"
    using length_getCurrentLevelColors [OF Suc.prems(2)] Suc.prems(2) by linarith
  have step: "changeColor level0 g = Inr ?g'"
    using Suc.prems by (rule changeColor_running)
  have run': "gameRunning ?g'" using Suc.prems by simp
  have idx': "0 \<le> ball_colorIndex (ball ?g')" using n by simp
  have "changeColorTimes k level0 ?g' =
     Inr (if k = 0 then ?g' else ?g'\<lparr>ball := (ball ?g')\<lparr>ball_colorIndex :=
        (ball_colorIndex (ball ?g') + int k) mod ?n\<rparr>\<rparr>)"
    using Suc.IH [OF run' Suc.prems(2) idx'] .
  moreover have "((ball_colorIndex (ball g) + 1) mod ?n + int k) mod ?n
      = (ball_colorIndex (ball g) + int (Suc k)) mod ?n"
    by (simp add: mod_simps algebra_simps)
  ultimately show ?case
    using step by (cases "k = 0") simp_all
qed

subsection \<open>Particles, popup texts, scoring\<close>

lemma pushParticles_shape:
  "\<exists>ps r. pushParticles n x y color isSuccess g = g\<lparr>particles := particles g @ ps, rng := r\<rparr>
     \<and> length ps = n \<and> (\<forall>p \<in> set ps. part_life p = (if isSuccess then 60 else 30))"
proof (induction n arbitrary: g)
  case 0
  have "g = g\<lparr>particles := particles g @ [], rng := rng g\<rparr>" by simp
  then show ?case by (metis pushParticles.simps(1) list.size(3) empty_iff empty_set)
next
  case (Suc n)
  let ?g3 = "g\<lparr>rng := stl (stl (stl (stl (rng g))))\<rparr>"
  obtain p where step: "pushParticles (Suc n) x y color isSuccess g =
      pushParticles n x y color isSuccess (?g3\<lparr>particles := particles g @ [p]\<rparr>)"
    and life: "part_life p = (if isSuccess then 60 else 30)"
    by (simp add: random_def Let_def)
  from Suc.IH [of "?g3\<lparr>particles := particles g @ [p]\<rparr>"]
  obtain ps r where ih: "pushParticles n x y color isSuccess (?g3\<lparr>particles := particles g @ [p]\<rparr>)
       = (?g3\<lparr>particles := particles g @ [p]\<rparr>)\<lparr>particles := particles (?g3\<lparr>particles := particles g @ [p]\<rparr>) @ ps, rng := r\<rparr>"
     and len: "length ps = n" and lives: "\<forall>p \<in> set ps. part_life p = (if isSuccess then 60 else 30)"
    by blast
  have "pushParticles (Suc n) x y color isSuccess g = g\<lparr>particles := particles g @ (p # ps), rng := r\<rparr>"
    using step ih by simp
  moreover have "length (p # ps) = Suc n" using len by simp
  moreover have "\<forall>q \<in> set (p # ps). part_life q = (if isSuccess then 60 else 30)"
    using life lives by simp
  ultimately show ?case by blast
qed

lemma createParticles_shape:
  "\<exists>ps r. createParticles x y color isSuccess g = g\<lparr>particles := particles g @ ps, rng := r\<rparr>
     \<and> length ps = (if isSuccess then 15 else 8)
     \<and> (\<forall>p \<in> set ps. part_life p = (if isSuccess then 60 else 30))"
  unfolding createParticles_def Let_def by (rule pushParticles_shape)

lemma startsWith_gameOverText: "startsWith (gameOverText v s h l) ''Game Over''"
  by (simp add: startsWith_def gameOverText_def)

lemma startsWith_levelUpText: "\<not> startsWith (levelUpText l s n) ''Game Over''"
  by (simp add: startsWith_def levelUpText_def)

lemma index_Some:
  "0 \<le> i \<Longrightarrow> i < int (length xs) \<Longrightarrow> index xs i = Some (xs ! nat i)"
  by (simp add: index_def)

lemma scoreMatch_score: "score (scoreMatch v level0 g) = score g + 10"
  by (cases v) (simp_all add: scoreMatch_def Let_def)

lemma scoreMatch_highScore: "highScore (scoreMatch v level0 g) = highScore g"
  by (cases v) (simp_all add: scoreMatch_def Let_def)

lemma scoreMatch_hook: "gameStartedHook (scoreMatch v level0 g) = gameStartedHook g"
  by (cases v) (simp_all add: scoreMatch_def Let_def)

lemma scoreMatch_not_ended:
  "session g = Running \<Longrightarrow> session (scoreMatch v level0 g) \<noteq> Ended"
  by (cases v) (auto simp: scoreMatch_def Let_def session_def startsWith_levelUpText split: if_splits)

lemma scoreMatch_GameCanvas_running:
  "session g = Running \<Longrightarrow> session (scoreMatch GameCanvas_tsx level0 g) = Running"
  by (auto simp: scoreMatch_def session_def split: if_splits)

lemma session_particles_rng [simp]:
  "session (g\<lparr>particles := ps, rng := r\<rparr>) = session g"
  by (simp add: session_def)

lemma handleGameOver_fields:
  "gameRunning (handleGameOver v s l h g) = False"
  "highScore (handleGameOver v s l h g) = max s h"
  "popupText (handleGameOver v s l h g) = gameOverText v s (max s h) l"
  "showPopup (handleGameOver v s l h g) = True"
  "score (handleGameOver v s l h g) = score g"
  "gameStartedHook (handleGameOver v s l h g) = gameStartedHook g"
  by (simp_all add: handleGameOver_def Let_def)

lemma scoreMatch_levelUp:
  assumes "level0 < newLevel (score g + 10)"
  shows "scoreMatch Part_000 level0 g =
     g\<lparr>popupText := levelUpText level0 (score g + 10) (newLevel (score g + 10)),
       showPopup := True, gameRunning := False, level := newLevel (score g + 10),
       score := score g + 10\<rparr>"
  using assms by (simp add: scoreMatch_def Let_def)

lemma scoreMatch_frame:
  "ball (scoreMatch v l g) = ball g"
  "gameSpeed (scoreMatch v l g) = gameSpeed g"
  "obstacleTimer (scoreMatch v l g) = obstacleTimer g"
  "obstacles (scoreMatch v l g) = obstacles g"
  "particles (scoreMatch v l g) = particles g"
  "gameRunning (scoreMatch v l g) \<longrightarrow> gameRunning g"
  by (cases v; simp add: scoreMatch_def Let_def)+

lemma handleGameOver_frame:
  "ball (handleGameOver v s l h g) = ball g"
  "gameSpeed (handleGameOver v s l h g) = gameSpeed g"
  "obstacleTimer (handleGameOver v s l h g) = obstacleTimer g"
  "obstacles (handleGameOver v s l h g) = obstacles g"
  "particles (handleGameOver v s l h g) = particles g"
  by (simp_all add: handleGameOver_def Let_def)

subsection \<open>The filter callback\<close>

lemma updateObstacle_match:
  assumes hit: "collision (ball g) bounceHeight (ob\<lparr>obs_y := obs_y ob + gameSpeed g\<rparr>)"
    and fresh: "\<not> obs_passed ob"
    and same: "obs_colorIndex ob = ball_colorIndex (ball g)"
    and lo: "0 \<le> obs_colorIndex ob"
    and hi: "obs_colorIndex ob < int (length (getCurrentLevelColors level0))"
  shows "\<exists>ps r. updateObstacle v score0 level0 highScore0 bounceHeight ob g =
           Inr (obs_y ob + gameSpeed g < canvasHeight + 50,
                ob\<lparr>obs_y := obs_y ob + gameSpeed g, obs_passed := True\<rparr>,
                (scoreMatch v level0 g)\<lparr>particles := particles g @ ps, rng := r\<rparr>)
           \<and> (\<forall>p \<in> set ps. part_life p = 60)"
proof -
  let ?ob = "ob\<lparr>obs_y := obs_y ob + gameSpeed g\<rparr>"
  let ?g1 = "scoreMatch v level0 g"
  let ?c = "getCurrentLevelColors level0 ! nat (obs_colorIndex ob)"
  have idx: "index (getCurrentLevelColors level0) (obs_colorIndex ?ob) = Some ?c"
    using lo hi by (simp add: index_Some)
  obtain ps r where cp: "createParticles (obs_x ?ob + obs_width ?ob / 2)
        (obs_y ?ob + obs_height ?ob / 2) (value ?c) True ?g1 = ?g1\<lparr>particles := particles ?g1 @ ps, rng := r\<rparr>"
    and lives: "\<forall>p \<in> set ps. part_life p = 60"
    using createParticles_shape [where isSuccess = True] by (metis (full_types))
  have parts: "particles ?g1 = particles g"
    by (cases v) (simp_all add: scoreMatch_def Let_def)
  have "updateObstacle v score0 level0 highScore0 bounceHeight ob g =
      Inr (markPassed (?ob\<lparr>obs_passed := True\<rparr>) (?g1\<lparr>particles := particles ?g1 @ ps, rng := r\<rparr>))"
    unfolding updateObstacle_def Let_def using hit fresh same idx cp by simp
  then show ?thesis
    using parts lives by (auto simp: markPassed_def Let_def)
qed

lemma updateObstacle_mismatch:
  assumes hit: "collision (ball g) bounceHeight (ob\<lparr>obs_y := obs_y ob + gameSpeed g\<rparr>)"
    and fresh: "\<not> obs_passed ob"
    and other: "obs_colorIndex ob \<noteq> ball_colorIndex (ball g)"
  shows "\<exists>ps r. updateObstacle v score0 level0 highScore0 bounceHeight ob g =
           Inr (False, ob\<lparr>obs_y := obs_y ob + gameSpeed g\<rparr>,
                handleGameOver v score0 level0 highScore0 (g\<lparr>particles := particles g @ ps, rng := r\<rparr>))
           \<and> (\<forall>p \<in> set ps. part_life p = 30)"
proof -
  obtain ps r where cp: "createParticles (ball_x (ball g)) (ball_y (ball g)) ''#ff4444'' False g
       = g\<lparr>particles := particles g @ ps, rng := r\<rparr>"
    and lives: "\<forall>p \<in> set ps. part_life p = 30"
    using createParticles_shape [where isSuccess = False] by (metis (full_types))
  show ?thesis
    unfolding updateObstacle_def Let_def using hit fresh other cp lives by auto
qed

lemma updateObstacle_no_hit:
  assumes "\<not> collision (ball g) bounceHeight (ob\<lparr>obs_y := obs_y ob + gameSpeed g\<rparr>) \<or> obs_passed ob"
  shows "updateObstacle v score0 level0 highScore0 bounceHeight ob g =
           Inr (markPassed (ob\<lparr>obs_y := obs_y ob + gameSpeed g\<rparr>) g)"
  unfolding updateObstacle_def Let_def using assms by auto

lemma filterObstacles_dropped:
  assumes "updateObstacle v s l h bh ob g = Inr (False, ob', g')"
  shows "filterObstacles v s l h bh (ob # obs) g = filterObstacles v s l h bh obs g'"
  using assms by (auto split: sum.splits)

lemma updateObstacle_cases:
  assumes "updateObstacle v score0 level0 highScore0 bounceHeight ob g = Inr (keep, ob', g')"
  shows "(\<exists>ps r. g' = (scoreMatch v level0 g)\<lparr>particles := particles g @ ps, rng := r\<rparr>
            \<and> (\<forall>p \<in> set ps. part_life p = 60)
            \<and> \<not> obs_passed ob \<and> obs_passed ob'
            \<and> collision (ball g) bounceHeight (ob\<lparr>obs_y := obs_y ob + gameSpeed g\<rparr>)
            \<and> obs_colorIndex ob = ball_colorIndex (ball g))
       \<or> (\<exists>ps r. g' = handleGameOver v score0 level0 highScore0 (g\<lparr>particles := particles g @ ps, rng := r\<rparr>)
            \<and> (\<forall>p \<in> set ps. part_life p = 30)
            \<and> \<not> keep \<and> \<not> obs_passed ob
            \<and> collision (ball g) bounceHeight (ob\<lparr>obs_y := obs_y ob + gameSpeed g\<rparr>)
            \<and> obs_colorIndex ob \<noteq> ball_colorIndex (ball g))
       \<or> (g' = g \<and> (obs_passed ob \<longrightarrow> obs_passed ob')
            \<and> (obs_passed ob \<or> \<not> collision (ball g) bounceHeight (ob\<lparr>obs_y := obs_y ob + gameSpeed g\<rparr>)))"
proof -
  let ?ob = "ob\<lparr>obs_y := obs_y ob + gameSpeed g\<rparr>"
  let ?hit = "collision (ball g) bounceHeight ?ob"
  consider (quiet) "\<not> ?hit \<or> obs_passed ob"
    | (match) "?hit" "\<not> obs_passed ob" "obs_colorIndex ob = ball_colorIndex (ball g)"
    | (miss) "?hit" "\<not> obs_passed ob" "obs_colorIndex ob \<noteq> ball_colorIndex (ball g)"
    by blast
  then show ?thesis
  proof cases
    case quiet
    then have "Inr (keep, ob', g') = Inr (markPassed ?ob g)"
      using assms updateObstacle_no_hit [of g bounceHeight ob] by simp
    then have "g' = g" "obs_passed ob \<longrightarrow> obs_passed ob'"
      by (auto simp: markPassed_def Let_def split: if_splits)
    with quiet show ?thesis by blast
  next
    case match
    have "index (getCurrentLevelColors level0) (obs_colorIndex ob) \<noteq> None"
      using assms match unfolding updateObstacle_def Let_def by (auto split: option.splits)
    then have "0 \<le> obs_colorIndex ob" "obs_colorIndex ob < int (length (getCurrentLevelColors level0))"
      by (auto simp: index_def split: if_splits)
    from updateObstacle_match [OF match this]
    obtain ps r where eq: "updateObstacle v score0 level0 highScore0 bounceHeight ob g =
           Inr (obs_y ob + gameSpeed g < canvasHeight + 50,
                ob\<lparr>obs_y := obs_y ob + gameSpeed g, obs_passed := True\<rparr>,
                (scoreMatch v level0 g)\<lparr>particles := particles g @ ps, rng := r\<rparr>)"
      and lives: "\<forall>p \<in> set ps. part_life p = 60"
      by blast
    with assms match show ?thesis by auto
  next
    case miss
    from updateObstacle_mismatch [OF miss]
    obtain ps r where "updateObstacle v score0 level0 highScore0 bounceHeight ob g =
           Inr (False, ob\<lparr>obs_y := obs_y ob + gameSpeed g\<rparr>,
                handleGameOver v score0 level0 highScore0 (g\<lparr>particles := particles g @ ps, rng := r\<rparr>))"
      and "\<forall>p \<in> set ps. part_life p = 30"
      by blast
    with assms miss show ?thesis by auto
  qed
qed

lemma updateObstacle_award:
  assumes "updateObstacle v score0 level0 highScore0 bounceHeight ob g = Inr (keep, ob', g')"
  shows "(obs_passed ob \<longrightarrow> obs_passed ob' \<and> score g' = score g)
       \<and> (score g' = score g \<or> (score g' = score g + 10 \<and> \<not> obs_passed ob \<and> obs_passed ob'))"
  using updateObstacle_cases [OF assms] by (auto simp: scoreMatch_score handleGameOver_fields)

lemma updateObstacle_colorIndex:
  assumes "updateObstacle v s l h bh ob g = Inr (keep, ob', g')"
  shows "obs_colorIndex ob' = obs_colorIndex ob"
  using assms unfolding updateObstacle_def markPassed_def Let_def
  by (auto split: if_splits option.splits)

lemma updateObstacle_total:
  assumes "0 \<le> obs_colorIndex ob" "obs_colorIndex ob < int (length (getCurrentLevelColors l))"
  shows "\<exists>res. updateObstacle v s l h bh ob g = Inr res"
proof -
  let ?hit = "collision (ball g) bh (ob\<lparr>obs_y := obs_y ob + gameSpeed g\<rparr>)"
  consider (quiet) "\<not> ?hit \<or> obs_passed ob"
    | (match) "?hit" "\<not> obs_passed ob" "obs_colorIndex ob = ball_colorIndex (ball g)"
    | (miss) "?hit" "\<not> obs_passed ob" "obs_colorIndex ob \<noteq> ball_colorIndex (ball g)"
    by blast
  then show ?thesis
  proof cases
    case quiet
    then show ?thesis using updateObstacle_no_hit by blast
  next
    case match
    then show ?thesis using updateObstacle_match [OF match assms] by blast
  next
    case miss
    then show ?thesis using updateObstacle_mismatch [OF miss] by blast
  qed
qed

subsection \<open>Spawning\<close>

lemma obstacleFrequency_div:
  "obstacleFrequency GameCanvas_tsx s = max (80 - s div 50) 40"
  "obstacleFrequency Part_000 s = max (100 - s div 200) 50"
  by (simp_all add: obstacleFrequency_def floor_div_numeral)

lemma obstacleFrequency_antimono: "s \<le> t \<Longrightarrow> obstacleFrequency v t \<le> obstacleFrequency v s"
proof -
  assume st: "s \<le> t"
  have "s div 50 \<le> t div 50" "s div 200 \<le> t div 200"
    using st by (simp_all add: zdiv_mono1)
  then show ?thesis
    by (cases v) (auto simp: obstacleFrequency_div)
qed

lemma obstacleFrequency_floor:
  "obstacleFrequency v s \<ge> (case v of GameCanvas_tsx \<Rightarrow> 40 | Part_000 \<Rightarrow> 50)"
  by (cases v) (simp_all add: obstacleFrequency_div)

lemma obstacleFrequency_gt_1: "1 < obstacleFrequency v s"
  using obstacleFrequency_floor [of v s] by (cases v) simp_all

lemma random_index_range:
  assumes "0 \<le> r" "r < 1" "0 < n"
  shows "0 \<le> \<lfloor>r * real n\<rfloor> \<and> \<lfloor>r * real n\<rfloor> < int n"
proof -
  have "0 \<le> r * real n" using assms by simp
  then have lo: "0 \<le> \<lfloor>r * real n\<rfloor>" by simp
  have "r * real n < real n" using assms by simp
  then have "\<lfloor>r * real n\<rfloor> < int n" by (simp add: floor_less_iff)
  with lo show ?thesis by simp
qed

lemma newObstacle_Part_000:
  "newObstacle Part_000 colors g =
     (\<lparr>obs_x = canvasWidth / 2 - 70, obs_y = - 80, obs_width = 140, obs_height = 80,
       obs_colorIndex = \<lfloor>shd (rng g) * real (length colors)\<rfloor>, obs_passed = False\<rparr>,
      g\<lparr>rng := stl (rng g)\<rparr>)"
  by (simp add: newObstacle_def random_def Let_def)

lemma newObstacle_GameCanvas:
  "newObstacle GameCanvas_tsx colors g =
     (\<lparr>obs_x = shd (rng g) * (canvasWidth - 80) + 40, obs_y = - 50, obs_width = 60, obs_height = 30,
       obs_colorIndex = \<lfloor>shd (stl (rng g)) * real (length colors)\<rfloor>, obs_passed = False\<rparr>,
      g\<lparr>rng := stl (stl (rng g))\<rparr>)"
  by (simp add: newObstacle_def random_def Let_def)

lemma generateObstacles_wait:
  "obstacleTimer g + 1 < obstacleFrequency v score0 \<Longrightarrow>
     generateObstacles v score0 colors g = g\<lparr>obstacleTimer := obstacleTimer g + 1\<rparr>"
  by (simp add: generateObstacles_def Let_def)

lemma generateObstacles_spawn:
  "obstacleFrequency v score0 \<le> obstacleTimer g + 1 \<Longrightarrow>
     generateObstacles v score0 colors g =
       (snd (newObstacle v colors g))\<lparr>obstacles := obstacles g @ [fst (newObstacle v colors g)],
          obstacleTimer := 0\<rparr>"
  by (cases v) (simp_all add: generateObstacles_def Let_def newObstacle_def random_def split_def)

lemma generateObstacles_due:
  assumes r1: "0 \<le> shd (rng g)" "shd (rng g) < 1"
    and r2: "0 \<le> shd (stl (rng g))" "shd (stl (rng g)) < 1"
    and n: "0 < length colors"
    and due: "obstacleFrequency v score0 \<le> obstacleTimer g + 1"
  shows "\<exists>ob r. generateObstacles v score0 colors g =
                  g\<lparr>obstacles := obstacles g @ [ob], obstacleTimer := 0, rng := r\<rparr>
          \<and> \<not> obs_passed ob
          \<and> obs_y ob + obs_height ob \<le> 0
          \<and> 0 \<le> obs_colorIndex ob \<and> obs_colorIndex ob < int (length colors)
          \<and> (v = Part_000 \<longrightarrow> obs_x ob + obs_width ob / 2 = canvasWidth / 2)
          \<and> (v = GameCanvas_tsx \<longrightarrow> obs_x ob = shd (rng g) * (canvasWidth - 80) + 40)"
proof (cases v)
  case GameCanvas_tsx
  let ?ob = "fst (newObstacle GameCanvas_tsx colors g)"
  have "generateObstacles v score0 colors g =
      g\<lparr>obstacles := obstacles g @ [?ob], obstacleTimer := 0, rng := stl (stl (rng g))\<rparr>"
    using generateObstacles_spawn [OF due] GameCanvas_tsx by (simp add: newObstacle_GameCanvas)
  moreover have "0 \<le> obs_colorIndex ?ob \<and> obs_colorIndex ?ob < int (length colors)"
    using random_index_range [OF r2 n] by (simp add: newObstacle_GameCanvas)
  moreover have "\<not> obs_passed ?ob" "obs_y ?ob + obs_height ?ob \<le> 0"
     "obs_x ?ob = shd (rng g) * (canvasWidth - 80) + 40"
    by (simp_all add: newObstacle_GameCanvas)
  ultimately show ?thesis using GameCanvas_tsx by blast
next
  case Part_000
  let ?ob = "fst (newObstacle Part_000 colors g)"
  have "generateObstacles v score0 colors g =
      g\<lparr>obstacles := obstacles g @ [?ob], obstacleTimer := 0, rng := stl (rng g)\<rparr>"
    using generateObstacles_spawn [OF due] Part_000 by (simp add: newObstacle_Part_000)
  moreover have "0 \<le> obs_colorIndex ?ob \<and> obs_colorIndex ?ob < int (length colors)"
    using random_index_range [OF r1 n] by (simp add: newObstacle_Part_000)
  moreover have "\<not> obs_passed ?ob" "obs_y ?ob + obs_height ?ob \<le> 0"
     "obs_x ?ob + obs_width ?ob / 2 = canvasWidth / 2"
    by (simp_all add: newObstacle_Part_000)
  ultimately show ?thesis using Part_000 by blast
qed

lemma generateObstacles_shape:
  "generateObstacles v s colors g = g\<lparr>obstacleTimer := obstacleTimer g + 1\<rparr>
   \<or> generateObstacles v s colors g =
       (snd (newObstacle v colors g))\<lparr>obstacles := obstacles g @ [fst (newObstacle v colors g)],
          obstacleTimer := 0\<rparr>"
  using generateObstacles_wait [of g v s colors] generateObstacles_spawn [of v s g colors]
  by linarith

lemma newObstacle_snd: "\<exists>r. snd (newObstacle v colors g) = g\<lparr>rng := r\<rparr>"
  by (cases v) (auto simp add: newObstacle_GameCanvas newObstacle_Part_000 intro: exI)

lemma generateObstacles_frame:
  "ball (generateObstacles v s colors g) = ball g"
  "gameRunning (generateObstacles v s colors g) = gameRunning g"
  "highScore (generateObstacles v s colors g) = highScore g"
  "particles (generateObstacles v s colors g) = particles g"
  "gameStartedHook (generateObstacles v s colors g) = gameStartedHook g"
  "score (generateObstacles v s colors g) = score g"
  "level (generateObstacles v s colors g) = level g"
  using generateObstacles_shape [of v s colors g] newObstacle_snd [of v colors g]
  by auto

lemma generateObstacles_timer:
  "obstacleTimer (generateObstacles v s colors g) =
     (if obstacleFrequency v s \<le> obstacleTimer g + 1 then 0 else obstacleTimer g + 1)"
  by (simp add: generateObstacles_wait generateObstacles_spawn)

subsection \<open>Particles\<close>

lemma part_life_moveParticle: "part_life (moveParticle p) = part_life p - 1"
  by (simp add: moveParticle_def)

lemma updateParticles_map_filter:
  "updateParticles ps = map moveParticle (filter (\<lambda>p. 1 < part_life p) ps)"
  by (induction ps) (simp_all add: updateParticles_def part_life_moveParticle)

lemma updateParticles_positive: "\<forall>q \<in> set (updateParticles ps). 0 < part_life q"
  by (simp add: updateParticles_def)

subsection \<open>The obstacle loop\<close>

lemma updateObstacle_frame:
  assumes "updateObstacle v s l h bh ob g = Inr (keep, ob', g')"
  shows "ball g' = ball g \<and> gameSpeed g' = gameSpeed g \<and> obstacleTimer g' = obstacleTimer g
    \<and> obstacles g' = obstacles g \<and> gameStartedHook g' = gameStartedHook g
    \<and> (gameRunning g' \<longrightarrow> gameRunning g)
    \<and> (highScore g' = highScore g \<or> (highScore g' = max s h \<and> \<not> gameRunning g'))
    \<and> score g \<le> score g' \<and> (score g' = score g \<longrightarrow> level g' = level g)
    \<and> (\<exists>new. particles g' = particles g @ new \<and> (\<forall>p \<in> set new. part_life p = 60 \<or> part_life p = 30))"
proof -
  have hg: "level (handleGameOver v s l h x) = level x" for x
    by (simp add: handleGameOver_def Let_def)
  show ?thesis
    using updateObstacle_cases [OF assms]
    by (auto simp: scoreMatch_frame scoreMatch_highScore scoreMatch_hook scoreMatch_score
          handleGameOver_frame handleGameOver_fields hg)
qed

lemma filterObstacles_frame:
  assumes "filterObstacles v s l h bh obs g = Inr (obs', g')"
  shows "ball g' = ball g \<and> gameSpeed g' = gameSpeed g \<and> obstacleTimer g' = obstacleTimer g
    \<and> gameStartedHook g' = gameStartedHook g
    \<and> (gameRunning g' \<longrightarrow> gameRunning g)
    \<and> (highScore g' = highScore g \<or> (highScore g' = max s h \<and> \<not> gameRunning g'))
    \<and> score g \<le> score g' \<and> (score g' = score g \<longrightarrow> level g' = level g)
    \<and> (\<exists>new. particles g' = particles g @ new \<and> (\<forall>p \<in> set new. part_life p = 60 \<or> part_life p = 30))
    \<and> obs_colorIndex ` set obs' \<subseteq> obs_colorIndex ` set obs"
  using assms
proof (induction obs arbitrary: g obs' g')
  case Nil
  then show ?case by simp
next
  case (Cons ob obs)
  from Cons.prems obtain keep ob1 g1 obs1 where
    first: "updateObstacle v s l h bh ob g = Inr (keep, ob1, g1)"
    and rest: "filterObstacles v s l h bh obs g1 = Inr (obs1, g')"
    and res: "obs' = (if keep then ob1 # obs1 else obs1)"
    by (auto split: sum.splits)
  note f = updateObstacle_frame [OF first]
  note c = updateObstacle_colorIndex [OF first]
  note r = Cons.IH [OF rest]
  from f obtain new1 where n1: "particles g1 = particles g @ new1"
    "\<forall>p \<in> set new1. part_life p = 60 \<or> part_life p = 30" by blast
  from r obtain new2 where n2: "particles g' = particles g1 @ new2"
    "\<forall>p \<in> set new2. part_life p = 60 \<or> part_life p = 30" by blast
  have parts: "\<exists>new. particles g' = particles g @ new \<and> (\<forall>p \<in> set new. part_life p = 60 \<or> part_life p = 30)"
  proof (intro exI conjI)
    show "particles g' = particles g @ (new1 @ new2)" using n1 n2 by simp
    show "\<forall>p \<in> set (new1 @ new2). part_life p = 60 \<or> part_life p = 30" using n1 n2 by auto
  qed
  have high: "highScore g' = highScore g \<or> (highScore g' = max s h \<and> \<not> gameRunning g')"
    using f r by auto
  have sc: "score g \<le> score g'" "score g' = score g \<longrightarrow> level g' = level g"
    using f r by auto
  have cols: "obs_colorIndex ` set obs' \<subseteq> obs_colorIndex ` set (ob # obs)"
    using r c res by auto
  have same: "ball g' = ball g" "gameSpeed g' = gameSpeed g" "obstacleTimer g' = obstacleTimer g"
    "gameStartedHook g' = gameStartedHook g" "gameRunning g' \<longrightarrow> gameRunning g"
    using f r by auto
  show ?case
    using same parts high sc cols by blast
qed

lemma filterObstacles_total:
  assumes "\<forall>ob \<in> set obs. 0 \<le> obs_colorIndex ob \<and> obs_colorIndex ob < int (length (getCurrentLevelColors l))"
  shows "\<exists>res. filterObstacles v s l h bh obs g = Inr res"
  using assms
proof (induction obs arbitrary: g)
  case Nil
  then show ?case by simp
next
  case (Cons ob obs)
  then obtain res where "updateObstacle v s l h bh ob g = Inr res"
    using updateObstacle_total [of ob l v s h bh g] by auto
  moreover obtain keep ob1 g1 where "res = (keep, ob1, g1)" by (cases res) auto
  moreover obtain res2 where "filterObstacles v s l h bh obs g1 = Inr res2"
    using Cons.IH [of g1] Cons.prems by auto
  ultimately show ?case by (auto split: prod.splits)
qed

subsection \<open>Frames\<close>

lemma placeGate_fields:
  "obs_colorIndex (placeGate v ob) = obs_colorIndex ob"
  "obs_y (placeGate v ob) = obs_y ob"
  "obs_passed (placeGate v ob) = obs_passed ob"
  by (cases v; simp add: placeGate_def Let_def)+

lemma placeGate_GameCanvas:
  "placeGate GameCanvas_tsx ob = ob\<lparr>obs_x := 100, obs_width := 120, obs_height := 60\<rparr>"
  by (simp add: placeGate_def Let_def canvasWidth_def)

lemma placeGate_Part_000: "placeGate Part_000 ob = ob"
  by (simp add: placeGate_def)

lemma drawObstacles_eq:
  "drawObstacles v colors obs =
     (if \<exists>ob \<in> set obs. index colors (obs_colorIndex ob) = None then Inl TypeError
      else Inr (map (placeGate v) obs))"
  by (induction obs) (auto simp: Let_def placeGate_fields split: option.splits)

lemma draw_eq:
  "draw v colors g =
     (if (\<exists>ob \<in> set (obstacles g). index colors (obs_colorIndex ob) = None)
          \<or> index colors (ball_colorIndex (ball g)) = None
      then Inl TypeError
      else Inr (g\<lparr>obstacles := map (placeGate v) (obstacles g)\<rparr>))"
  by (auto simp: draw_def drawObstacles_eq split: option.splits)

lemma frame_stopped: "\<not> gameRunning g \<Longrightarrow> frame v sync s l h g = Inr g"
  by (simp add: frame_def)

lemma frame_shape:
  assumes "gameRunning g"
  shows "\<exists>g3 bh.
      obstacles g3 = obstacles g \<and> particles g3 = particles g \<and> rng g3 = rng g
      \<and> obstacleTimer g3 = obstacleTimer g \<and> gameRunning g3
      \<and> gameStartedHook g3 = gameStartedHook g \<and> highScore g3 = highScore g
      \<and> score g3 = score g \<and> showPopup g3 = showPopup g \<and> popupText g3 = popupText g
      \<and> level g3 = (if sync \<and> newLevel s \<noteq> l then newLevel s else level g)
      \<and> ball_colorIndex (ball g3) = ball_colorIndex (ball g)
      \<and> ball g3 = (ball g)\<lparr>ball_bounceOffset :=
                       ball_bounceOffset (ball g) + ball_bounceSpeed (ball g)\<rparr>
      \<and> gameSpeed g3 = 2 + real_of_int \<lfloor>real_of_int s / 100\<rfloor> * speedStep v
      \<and> - 5 \<le> bh \<and> bh \<le> 5
      \<and> frame v sync s l h g =
          (case filterObstacles v s l h bh
                  (obstacles (generateObstacles v s (getCurrentLevelColors l) g3))
                  (generateObstacles v s (getCurrentLevelColors l) g3) of
             Inl e \<Rightarrow> Inl e
           | Inr (obs', g5) \<Rightarrow>
               draw v (getCurrentLevelColors l)
                 (g5\<lparr>obstacles := obs', particles := updateParticles (particles g5)\<rparr>))"
proof -
  define g2 where "g2 = (let g1 = g\<lparr>gameSpeed := 2 + real_of_int \<lfloor>real_of_int s / 100\<rfloor> * speedStep v\<rparr>
       in if sync \<and> newLevel s \<noteq> l then g1\<lparr>level := newLevel s\<rparr> else g1)"
  define g3 where "g3 = g2\<lparr>ball := (ball g2)\<lparr>ball_bounceOffset :=
                      ball_bounceOffset (ball g2) + ball_bounceSpeed (ball g2)\<rparr>\<rparr>"
  have fields: "obstacles g3 = obstacles g" "particles g3 = particles g" "rng g3 = rng g"
    "obstacleTimer g3 = obstacleTimer g" "gameRunning g3"
    "gameStartedHook g3 = gameStartedHook g" "highScore g3 = highScore g" "score g3 = score g"
    "showPopup g3 = showPopup g" "popupText g3 = popupText g"
    "level g3 = (if sync \<and> newLevel s \<noteq> l then newLevel s else level g)"
    "ball_colorIndex (ball g3) = ball_colorIndex (ball g)"
    "ball g3 = (ball g)\<lparr>ball_bounceOffset :=
                       ball_bounceOffset (ball g) + ball_bounceSpeed (ball g)\<rparr>"
    "gameSpeed g3 = 2 + real_of_int \<lfloor>real_of_int s / 100\<rfloor> * speedStep v"
    using assms by (simp_all add: g3_def g2_def Let_def)
  have bound: "- 5 \<le> sin (ball_bounceOffset (ball g3)) * 5" "sin (ball_bounceOffset (ball g3)) * 5 \<le> 5"
    using sin_ge_minus_one [of "ball_bounceOffset (ball g3)"] sin_le_one [of "ball_bounceOffset (ball g3)"]
    by simp_all
  have "frame v sync s l h g =
          (case filterObstacles v s l h (sin (ball_bounceOffset (ball g3)) * 5)
                  (obstacles (generateObstacles v s (getCurrentLevelColors l) g3))
                  (generateObstacles v s (getCurrentLevelColors l) g3) of
             Inl e \<Rightarrow> Inl e
           | Inr (obs', g5) \<Rightarrow>
               draw v (getCurrentLevelColors l)
                 (g5\<lparr>obstacles := obs', particles := updateParticles (particles g5)\<rparr>))"
    using assms unfolding frame_def g3_def g2_def Let_def
    by (auto split: sum.split)
  with fields bound show ?thesis by blast
qed

lemma frame_quiet:
  assumes run: "gameRunning g" and empty: "obstacles g = []"
    and early: "obstacleTimer g + 1 < obstacleFrequency v s"
    and res: "frame v sync s l h g = Inr g'"
  shows "index (getCurrentLevelColors l) (ball_colorIndex (ball g)) \<noteq> None
    \<and> obstacles g' = [] \<and> particles g' = updateParticles (particles g)
    \<and> obstacleTimer g' = obstacleTimer g + 1 \<and> gameRunning g'
    \<and> gameStartedHook g' = gameStartedHook g \<and> highScore g' = highScore g
    \<and> score g' = score g \<and> showPopup g' = showPopup g \<and> popupText g' = popupText g
    \<and> level g' = (if sync \<and> newLevel s \<noteq> l then newLevel s else level g)
    \<and> ball_colorIndex (ball g') = ball_colorIndex (ball g)"
proof -
  from frame_shape [OF run, of sync s l v h] obtain g3 bh where
    f: "obstacles g3 = obstacles g" "particles g3 = particles g"
      "obstacleTimer g3 = obstacleTimer g" "gameRunning g3"
      "gameStartedHook g3 = gameStartedHook g" "highScore g3 = highScore g"
      "score g3 = score g" "showPopup g3 = showPopup g" "popupText g3 = popupText g"
      "level g3 = (if sync \<and> newLevel s \<noteq> l then newLevel s else level g)"
      "ball_colorIndex (ball g3) = ball_colorIndex (ball g)"
    and fr: "frame v sync s l h g =
          (case filterObstacles v s l h bh
                  (obstacles (generateObstacles v s (getCurrentLevelColors l) g3))
                  (generateObstacles v s (getCurrentLevelColors l) g3) of
             Inl e \<Rightarrow> Inl e
           | Inr (obs', g5) \<Rightarrow>
               draw v (getCurrentLevelColors l)
                 (g5\<lparr>obstacles := obs', particles := updateParticles (particles g5)\<rparr>))"
    by blast
  have g4: "generateObstacles v s (getCurrentLevelColors l) g3 = g3\<lparr>obstacleTimer := obstacleTimer g + 1\<rparr>"
    using early f(3) generateObstacles_wait [of g3 v s "getCurrentLevelColors l"] by simp
  let ?g7 = "g3\<lparr>obstacleTimer := obstacleTimer g + 1, obstacles := [],
                particles := updateParticles (particles g)\<rparr>"
  have "frame v sync s l h g = draw v (getCurrentLevelColors l) ?g7"
    unfolding fr g4 using f empty by simp
  with res have d: "draw v (getCurrentLevelColors l) ?g7 = Inr g'"
    by simp
  from d f(11) have "index (getCurrentLevelColors l) (ball_colorIndex (ball g)) \<noteq> None"
    and g': "g' = ?g7"
    by (auto simp: draw_eq split: if_splits)
  then show ?thesis using f by simp
qed

lemma frame_quiet_total:
  assumes run: "gameRunning g" and empty: "obstacles g = []"
    and early: "obstacleTimer g + 1 < obstacleFrequency v s"
    and ballok: "index (getCurrentLevelColors l) (ball_colorIndex (ball g)) \<noteq> None"
  shows "\<exists>g'. frame v sync s l h g = Inr g'"
proof -
  from frame_shape [OF run, of sync s l v h] obtain g3 bh where
    f: "obstacles g3 = obstacles g" "obstacleTimer g3 = obstacleTimer g"
      "ball_colorIndex (ball g3) = ball_colorIndex (ball g)"
    and fr: "frame v sync s l h g =
          (case filterObstacles v s l h bh
                  (obstacles (generateObstacles v s (getCurrentLevelColors l) g3))
                  (generateObstacles v s (getCurrentLevelColors l) g3) of
             Inl e \<Rightarrow> Inl e
           | Inr (obs', g5) \<Rightarrow>
               draw v (getCurrentLevelColors l)
                 (g5\<lparr>obstacles := obs', particles := updateParticles (particles g5)\<rparr>))"
    by blast
  have g4: "generateObstacles v s (getCurrentLevelColors l) g3 = g3\<lparr>obstacleTimer := obstacleTimer g + 1\<rparr>"
    using early f(2) generateObstacles_wait [of g3 v s "getCurrentLevelColors l"] by simp
  show ?thesis
    unfolding fr g4 using f empty ballok by (simp add: draw_eq)
qed

lemma frame_result:
  assumes res: "frame v sync s l h g = Inr g'"
  shows "(highScore g' = highScore g \<or> (highScore g' = max s h \<and> \<not> gameRunning g'))
    \<and> gameStartedHook g' = gameStartedHook g
    \<and> (gameRunning g \<longrightarrow>
          (\<exists>new. particles g' = updateParticles (particles g @ new)
             \<and> (\<forall>p \<in> set new. part_life p = 60 \<or> part_life p = 30))
          \<and> (score g' = score g \<longrightarrow>
                level g' = (if sync \<and> newLevel s \<noteq> l then newLevel s else level g))
          \<and> (\<exists>obs. obstacles g' = map (placeGate v) obs)
          \<and> obstacleTimer g' =
                (if obstacleFrequency v s \<le> obstacleTimer g + 1 then 0 else obstacleTimer g + 1))"
proof (cases "gameRunning g")
  case False
  then have "g' = g" using res by (simp add: frame_def)
  then show ?thesis using False by simp
next
  case True
  from frame_shape [OF True, of sync s l v h] obtain g3 bh where
    f: "particles g3 = particles g" "gameRunning g3"
      "gameStartedHook g3 = gameStartedHook g" "highScore g3 = highScore g"
      "score g3 = score g"
      "level g3 = (if sync \<and> newLevel s \<noteq> l then newLevel s else level g)"
      "obstacleTimer g3 = obstacleTimer g"
    and fr: "frame v sync s l h g =
          (case filterObstacles v s l h bh
                  (obstacles (generateObstacles v s (getCurrentLevelColors l) g3))
                  (generateObstacles v s (getCurrentLevelColors l) g3) of
             Inl e \<Rightarrow> Inl e
           | Inr (obs', g5) \<Rightarrow>
               draw v (getCurrentLevelColors l)
                 (g5\<lparr>obstacles := obs', particles := updateParticles (particles g5)\<rparr>))"
    by blast
  define g4 where "g4 = generateObstacles v s (getCurrentLevelColors l) g3"
  have g4: "highScore g4 = highScore g" "particles g4 = particles g"
    "gameStartedHook g4 = gameStartedHook g" "score g4 = score g"
    "level g4 = (if sync \<and> newLevel s \<noteq> l then newLevel s else level g)"
    by (simp_all add: g4_def generateObstacles_frame f)
  have t4: "obstacleTimer g4 =
      (if obstacleFrequency v s \<le> obstacleTimer g + 1 then 0 else obstacleTimer g + 1)"
    using f(7) by (simp add: g4_def generateObstacles_timer)
  from res obtain obs' g5 where
    fo: "filterObstacles v s l h bh (obstacles g4) g4 = Inr (obs', g5)"
    and dr: "draw v (getCurrentLevelColors l)
               (g5\<lparr>obstacles := obs', particles := updateParticles (particles g5)\<rparr>) = Inr g'"
    unfolding fr g4_def [symmetric]
    by (auto split: sum.splits)
  from dr have g': "g' = g5\<lparr>obstacles := map (placeGate v) obs',
                           particles := updateParticles (particles g5)\<rparr>"
    by (auto simp: draw_eq split: if_splits)
  note r = filterObstacles_frame [OF fo]
  from r obtain new where new: "particles g5 = particles g4 @ new"
    "\<forall>p \<in> set new. part_life p = 60 \<or> part_life p = 30" by blast
  have a: "highScore g' = highScore g \<or> (highScore g' = max s h \<and> \<not> gameRunning g')"
    using r g4(1) g' by auto
  have b: "gameStartedHook g' = gameStartedHook g"
    using r g4(3) g' by auto
  have c: "\<exists>new. particles g' = updateParticles (particles g @ new)
             \<and> (\<forall>p \<in> set new. part_life p = 60 \<or> part_life p = 30)"
    using new g4(2) g' by auto
  have d: "score g' = score g \<longrightarrow>
                level g' = (if sync \<and> newLevel s \<noteq> l then newLevel s else level g)"
    using r g4(4,5) g' by auto
  have e: "\<exists>obs. obstacles g' = map (placeGate v) obs"
    using g' by auto
  have t: "obstacleTimer g' =
      (if obstacleFrequency v s \<le> obstacleTimer g + 1 then 0 else obstacleTimer g + 1)"
    using r t4 g' by simp
  show ?thesis using a b c d e t by blast
qed

lemma frame_total:
  assumes gates: "\<forall>ob \<in> set (obstacles g). 0 \<le> obs_colorIndex ob
              \<and> obs_colorIndex ob < int (length (getCurrentLevelColors l))"
    and ballok: "0 \<le> ball_colorIndex (ball g)"
        "ball_colorIndex (ball g) < int (length (getCurrentLevelColors l))"
    and r1: "0 \<le> shd (rng g)" "shd (rng g) < 1"
    and r2: "0 \<le> shd (stl (rng g))" "shd (stl (rng g)) < 1"
    and lev: "1 \<le> l"
  shows "\<exists>g'. frame v sync s l h g = Inr g'"
proof (cases "gameRunning g")
  case False
  then show ?thesis by (simp add: frame_def)
next
  case True
  let ?colors = "getCurrentLevelColors l"
  from frame_shape [OF True, of sync s l v h] obtain g3 bh where
    g3: "obstacles g3 = obstacles g" "rng g3 = rng g"
      "ball_colorIndex (ball g3) = ball_colorIndex (ball g)"
    and fr: "frame v sync s l h g =
          (case filterObstacles v s l h bh
                  (obstacles (generateObstacles v s ?colors g3))
                  (generateObstacles v s ?colors g3) of
             Inl e \<Rightarrow> Inl e
           | Inr (obs', g5) \<Rightarrow>
               draw v ?colors
                 (g5\<lparr>obstacles := obs', particles := updateParticles (particles g5)\<rparr>))"
    by blast
  define g4 where "g4 = generateObstacles v s ?colors g3"
  have n: "0 < length ?colors"
    using length_getCurrentLevelColors [OF lev] lev by auto
  have ball4: "ball_colorIndex (ball g4) = ball_colorIndex (ball g)"
    by (simp add: g4_def generateObstacles_frame g3)
  have gates4: "\<forall>ob \<in> set (obstacles g4). 0 \<le> obs_colorIndex ob
              \<and> obs_colorIndex ob < int (length ?colors)"
  proof (cases "obstacleTimer g3 + 1 < obstacleFrequency v s")
    case True
    then show ?thesis
      using gates g3 generateObstacles_wait [of g3 v s ?colors] by (simp add: g4_def)
  next
    case False
    then have due: "obstacleFrequency v s \<le> obstacleTimer g3 + 1" by simp
    have "\<exists>ob r. g4 = g3\<lparr>obstacles := obstacles g3 @ [ob], obstacleTimer := 0, rng := r\<rparr>
          \<and> 0 \<le> obs_colorIndex ob \<and> obs_colorIndex ob < int (length ?colors)"
      using generateObstacles_due [of g3 ?colors v s, OF _ _ _ _ n due] r1 r2 g3
      unfolding g4_def by metis
    then obtain ob r where "g4 = g3\<lparr>obstacles := obstacles g3 @ [ob], obstacleTimer := 0, rng := r\<rparr>"
      and "0 \<le> obs_colorIndex ob \<and> obs_colorIndex ob < int (length ?colors)"
      by blast
    then show ?thesis using gates g3 by auto
  qed
  obtain obs' g5 where fo: "filterObstacles v s l h bh (obstacles g4) g4 = Inr (obs', g5)"
    using filterObstacles_total [OF gates4] by (metis surj_pair)
  note r = filterObstacles_frame [OF fo]
  have kept: "\<forall>ob \<in> set obs'. 0 \<le> obs_colorIndex ob \<and> obs_colorIndex ob < int (length ?colors)"
  proof
    fix ob assume "ob \<in> set obs'"
    then have "obs_colorIndex ob \<in> obs_colorIndex ` set (obstacles g4)" using r by blast
    then show "0 \<le> obs_colorIndex ob \<and> obs_colorIndex ob < int (length ?colors)"
      using gates4 by auto
  qed
  have "ball g5 = ball g4" using r by blast
  then have "\<exists>g'. draw v ?colors (g5\<lparr>obstacles := obs', particles := updateParticles (particles g5)\<rparr>) = Inr g'"
    using kept ball4 ballok by (auto simp: draw_eq index_def)
  then show ?thesis
    unfolding fr g4_def [symmetric] using fo by simp
qed

subsection \<open>The high score\<close>

lemma popupReset_fields:
  "highScore (popupReset v g) = highScore g"
  "gameRunning (popupReset v g)"
  "obstacles (popupReset v g) = []"
  "particles (popupReset v g) = []"
  "obstacleTimer (popupReset v g) = 0"
  by (cases v; simp add: popupReset_def Let_def)+

lemma handlePopupAction_highScore:
  assumes "handlePopupAction v g = Inr g'"
  shows "highScore g' = highScore g"
proof (cases v)
  case GameCanvas_tsx
  then show ?thesis using assms by (auto simp: handlePopupAction_def popupReset_fields)
next
  case Part_000
  let ?q = "popupReset v g"
  have early: "obstacleTimer ?q + 1 < obstacleFrequency v (score g)"
    using obstacleFrequency_gt_1 [of v "score g"] by (simp add: popupReset_fields)
  have "frame v False (score g) (level g) (highScore g) ?q = Inr g'"
    using assms Part_000 by (simp add: handlePopupAction_def)
  from frame_quiet [OF popupReset_fields(2) popupReset_fields(3) early this]
  show ?thesis by (simp add: popupReset_fields)
qed

lemma changeColor_highScore:
  "changeColor l g = Inr g' \<Longrightarrow> highScore g' = highScore g"
  by (auto simp: changeColor_def Let_def split: if_splits)

lemma step_highScore:
  assumes "step v e g = Inr g'"
  shows "highScore g' = highScore g
       \<or> (e = Frame \<and> \<not> gameRunning g' \<and> highScore g' = max (score g) (highScore g))"
proof (cases e)
  case Frame
  show ?thesis
  proof (cases "gameStartedHook g")
    case True
    then have "frame v True (score g) (level g) (highScore g) g = Inr g'"
      using assms Frame by (simp add: step_def animate_def)
    from frame_result [OF this] Frame show ?thesis by auto
  next
    case False
    then show ?thesis using assms Frame by (simp add: step_def)
  qed
next
  case Input
  then show ?thesis
    using assms changeColor_highScore [of "level g" g g']
    by (auto simp: step_def handleInput_def split: if_splits)
next
  case PopupButton
  then show ?thesis
    using assms handlePopupAction_highScore [of v g g']
    by (auto simp: step_def split: if_splits)
next
  case StartButton
  then show ?thesis
    using assms by (auto simp: step_def startGame_def split: if_splits)
qed

lemma run_highScore: "run v es g = Inr g' \<Longrightarrow> highScore g \<le> highScore g'"
proof (induction es arbitrary: g)
  case Nil
  then show ?case by simp
next
  case (Cons e es)
  then obtain g1 where s: "step v e g = Inr g1" and r: "run v es g1 = Inr g'"
    by (auto split: sum.splits)
  from step_highScore [OF s] have "highScore g \<le> highScore g1" by auto
  with Cons.IH [OF r] show ?case by simp
qed

subsection \<open>Points of one gate\<close>

lemma gateAwards_passed: "obs_passed ob \<Longrightarrow> gateAwards fs ob = 0"
proof (induction fs arbitrary: ob)
  case Nil
  then show ?case by simp
next
  case (Cons f fs)
  obtain v s l h bh g where f: "f = (v, s, l, h, bh, g)" by (cases f) auto
  show ?case
  proof (cases "updateObstacle v s l h bh ob g")
    case (Inl e)
    then show ?thesis using f by simp
  next
    case (Inr res)
    obtain keep ob' g' where res: "res = (keep, ob', g')" by (cases res) auto
    from updateObstacle_award [OF Inr [unfolded res]] Cons.prems
    have "obs_passed ob'" "score g' = score g" by auto
    then show ?thesis using f Inr res Cons.IH [of ob'] by simp
  qed
qed

lemma gateAwards_bound: "gateAwards fs ob = 0 \<or> gateAwards fs ob = 10"
proof (induction fs arbitrary: ob)
  case Nil
  then show ?case by simp
next
  case (Cons f fs)
  obtain v s l h bh g where f: "f = (v, s, l, h, bh, g)" by (cases f) auto
  show ?case
  proof (cases "updateObstacle v s l h bh ob g")
    case (Inl e)
    then show ?thesis using f by simp
  next
    case (Inr res)
    obtain keep ob' g' where res: "res = (keep, ob', g')" by (cases res) auto
    from updateObstacle_award [OF Inr [unfolded res]]
    consider "score g' = score g" | "score g' = score g + 10" "obs_passed ob'" by blast
    then show ?thesis
    proof cases
      case 1
      then show ?thesis using f Inr res Cons.IH [of ob'] by auto
    next
      case 2
      then show ?thesis using f Inr res gateAwards_passed [of ob' fs] by simp
    qed
  qed
qed

section \<open>The claims\<close>

lemma playing_fields:
  "gameRunning (playing s l c)" "gameStartedHook (playing s l c)"
  "obstacles (playing s l c) = []" "particles (playing s l c) = []"
  "obstacleTimer (playing s l c) = 0" "score (playing s l c) = s" "level (playing s l c) = l"
  "highScore (playing s l c) = 0" "gameSpeed (playing s l c) = 2"
  "rng (playing s l c) = sconst (1 / 2)" "ball_colorIndex (ball (playing s l c)) = c"
  by (simp_all add: playing_def startGame_def initialGame_def)

lemma playing_ball:
  "ball (playing s l c) = \<lparr>ball_x = 150, ball_y = 500, ball_colorIndex = c, ball_radius = 20,
              ball_bounceOffset = 0, ball_bounceSpeed = 0.15\<rparr>"
  by (simp add: playing_def startGame_def initialGame_def)

lemma playing_recolor:
  "(playing s l c)\<lparr>ball := (ball (playing s l c))\<lparr>ball_colorIndex := d\<rparr>\<rparr> = playing s l d"
  by (simp add: playing_def startGame_def initialGame_def)

lemma session_playing: "session (playing s l c) = Running"
  by (simp add: session_def playing_fields)

lemma palette_sizes:
  "length (getCurrentLevelColors 1) = 2" "length (getCurrentLevelColors 2) = 3"
  "length (getCurrentLevelColors 3) = 4" "length (getCurrentLevelColors 4) = 5"
  using length_getCurrentLevelColors [of 1] length_getCurrentLevelColors [of 2]
    length_getCurrentLevelColors [of 3] length_getCurrentLevelColors [of 4]
  by simp_all

text \<open>
  C1. For every score \<open>s \<ge> 0\<close> the level that the program derives from it,
  \<^verbatim>\<open>Math.min(Math.floor(s / 200) + 1, 5)\<close>, is \<open>min (s div 200 + 1) 5\<close>; it lies between
  1 and 5 and does not decrease when the score grows. It is the level a frame of the main
  loop leaves in the level hook when no gate scores in that frame.
\<close>

theorem derived_level:
  "0 \<le> s \<Longrightarrow>
     newLevel s = min (s div 200 + 1) 5 \<and> 1 \<le> newLevel s \<and> newLevel s \<le> 5
     \<and> (\<forall>t. s \<le> t \<longrightarrow> newLevel s \<le> newLevel t)
     \<and> (\<forall>v g g'. score g = s \<and> gameRunning g \<and> animate v g = Inr g' \<and> score g' = s
           \<longrightarrow> level g' = newLevel s)"
proof -
  assume s: "0 \<le> s"
  have pos: "0 \<le> s div 200" using s by simp
  have mono: "s div 200 \<le> t div 200" if "s \<le> t" for t
    using that by (simp add: zdiv_mono1)
  have arith: "newLevel s = min (s div 200 + 1) 5 \<and> 1 \<le> newLevel s \<and> newLevel s \<le> 5
     \<and> (\<forall>t. s \<le> t \<longrightarrow> newLevel s \<le> newLevel t)"
    using pos mono by (auto simp: newLevel_div min_def)
  have "level g' = newLevel s"
    if "score g = s" "gameRunning g" "animate v g = Inr g'" "score g' = s" for v g g'
  proof -
    have "frame v True (score g) (level g) (highScore g) g = Inr g'"
      using that(3) by (simp add: animate_def)
    from frame_result [OF this] that show ?thesis by auto
  qed
  with arith show ?thesis by blast
qed

theorem derived_level_witness:
  "(0::int) \<le> 250 \<and> newLevel 250 = 2 \<and> newLevel 0 = 1 \<and> newLevel 650 = 4
   \<and> newLevel 250 \<le> newLevel 650
   \<and> (\<exists>g'. animate Part_000 (playing 250 1 0) = Inr g' \<and> score g' = 250 \<and> level g' = 2)"
proof -
  let ?g = "playing 250 1 0"
  have early: "obstacleTimer ?g + 1 < obstacleFrequency Part_000 (score ?g)"
    by (simp add: playing_fields obstacleFrequency_div)
  have ballok: "index (getCurrentLevelColors (level ?g)) (ball_colorIndex (ball ?g)) \<noteq> None"
    by (simp add: playing_fields index_def palette_sizes)
  obtain g' where run: "frame Part_000 True (score ?g) (level ?g) (highScore ?g) ?g = Inr g'"
    using frame_quiet_total [OF playing_fields(1) playing_fields(3) early ballok] by blast
  from frame_quiet [OF playing_fields(1) playing_fields(3) early run]
  have sc: "score g' = 250" by (simp add: playing_fields)
  have an: "animate Part_000 ?g = Inr g'" using run by (simp add: animate_def)
  have h0: "(0::int) \<le> 250" by simp
  have "level g' = newLevel 250"
    using derived_level [OF h0] an sc playing_fields(1) [of 250 1 0] playing_fields(6) [of 250 1 0]
    by blast
  moreover have "newLevel 250 = 2" "newLevel 0 = 1" "newLevel 650 = 4"
    using derived_level [of 250] derived_level [of 0] derived_level [of 650] by simp_all
  ultimately show ?thesis using an sc by simp
qed

text \<open>
  C2. For every level \<open>L \<ge> 1\<close> the number of colours in play, the length of
  \<open>getCurrentLevelColors L\<close>, is \<open>min (L + 1) 5\<close>: at least 2 (so never 0), at most 5, and
  not decreasing in the level.
\<close>

theorem color_count:
  "1 \<le> L \<Longrightarrow>
     int (length (getCurrentLevelColors L)) = min (L + 1) 5 \<and>
     2 \<le> length (getCurrentLevelColors L) \<and> length (getCurrentLevelColors L) \<le> 5 \<and>
     (\<forall>M. L \<le> M \<longrightarrow> length (getCurrentLevelColors L) \<le> length (getCurrentLevelColors M))"
proof -
  assume L: "1 \<le> L"
  have a: "int (length (getCurrentLevelColors L)) = min (L + 1) 5"
    using L by (rule length_getCurrentLevelColors)
  have b: "length (getCurrentLevelColors L) \<le> length (getCurrentLevelColors M)" if "L \<le> M" for M
  proof -
    have "int (length (getCurrentLevelColors M)) = min (M + 1) 5"
      using L that by (intro length_getCurrentLevelColors) simp
    with a that show ?thesis by linarith
  qed
  from a L have c: "2 \<le> length (getCurrentLevelColors L)" "length (getCurrentLevelColors L) \<le> 5"
    by linarith+
  from a b c show ?thesis by blast
qed

theorem color_count_witness:
  "(1::int) \<le> 2 \<and> length (getCurrentLevelColors 1) = 2 \<and> length (getCurrentLevelColors 2) = 3
    \<and> length (getCurrentLevelColors 4) = 5 \<and> length (getCurrentLevelColors 7) = 5
    \<and> length (getCurrentLevelColors 2) \<le> length (getCurrentLevelColors 4)"
  using color_count [of 1] color_count [of 2] color_count [of 4] color_count [of 7] by simp

text \<open>
  C3. While the game is running, \<open>changeColor\<close> takes the ball's colour index \<open>i\<close> to
  \<open>(i + 1) mod n\<close>, where \<open>n\<close> is the number of colours of the level; from an index in
  \<open>[0, n)\<close>, \<open>n\<close> advances bring the game back to where it was.
\<close>

theorem changeColor_cyclic:
  assumes "gameRunning g" and "1 \<le> level0"
    and "0 \<le> ball_colorIndex (ball g)"
    and "ball_colorIndex (ball g) < int (length (getCurrentLevelColors level0))"
  shows "changeColor level0 g =
           Inr (g\<lparr>ball := (ball g)\<lparr>ball_colorIndex :=
             (ball_colorIndex (ball g) + 1) mod int (length (getCurrentLevelColors level0))\<rparr>\<rparr>)
         \<and> changeColorTimes (length (getCurrentLevelColors level0)) level0 g = Inr g"
proof -
  let ?n = "length (getCurrentLevelColors level0)"
  have n: "?n \<noteq> 0"
    using length_getCurrentLevelColors [OF assms(2)] assms(2) by auto
  have "(ball_colorIndex (ball g) + int ?n) mod int ?n = ball_colorIndex (ball g)"
    using assms(3,4) by simp
  then have "changeColorTimes ?n level0 g = Inr g"
    using changeColorTimes_add [OF assms(1-3), of ?n] n by simp
  with changeColor_running [OF assms(1-3)] show ?thesis by simp
qed

theorem changeColor_cyclic_witness:
  "gameRunning (playing 250 2 1) \<and> (1::int) \<le> 2
   \<and> 0 \<le> ball_colorIndex (ball (playing 250 2 1))
   \<and> ball_colorIndex (ball (playing 250 2 1)) < int (length (getCurrentLevelColors 2))
   \<and> changeColor 2 (playing 250 2 1) = Inr (playing 250 2 2)
   \<and> changeColor 2 (playing 250 2 2) = Inr (playing 250 2 0)
   \<and> changeColorTimes 3 2 (playing 250 2 1) = Inr (playing 250 2 1)"
proof -
  have h: "gameRunning (playing 250 2 c)" for c by (simp add: playing_fields)
  have i1: "0 \<le> ball_colorIndex (ball (playing 250 2 1))"
    "ball_colorIndex (ball (playing 250 2 1)) < int (length (getCurrentLevelColors 2))"
    and i2: "0 \<le> ball_colorIndex (ball (playing 250 2 2))"
    "ball_colorIndex (ball (playing 250 2 2)) < int (length (getCurrentLevelColors 2))"
    by (simp_all add: playing_fields palette_sizes)
  have l: "(1::int) \<le> 2" by simp
  from changeColor_cyclic [OF h l i1] changeColor_cyclic [OF h l i2]
  show ?thesis using h i1 by (simp add: playing_recolor playing_fields(11) palette_sizes)
qed

lemma collision_bounceOffset:
  "collision (b\<lparr>ball_bounceOffset := z\<rparr>) bh ob = collision b bh ob"
  by (simp add: collision_def)

lemma collision_playing_gate:
  assumes "- 5 \<le> bh" "bh \<le> 5"
  shows "collision (ball (playing s l c)) bh ((gateAt 450 k)\<lparr>obs_y := obs_y (gateAt 450 k) + 2\<rparr>)"
  using assms by (simp add: collision_def playing_ball gateAt_def Let_def)

lemma frame_game_over:
  assumes run: "gameRunning g" and one: "obstacles g = [ob]"
    and early: "obstacleTimer g + 1 < obstacleFrequency v s"
    and fresh: "\<not> obs_passed ob"
    and other: "obs_colorIndex ob \<noteq> ball_colorIndex (ball g)"
    and hit: "\<forall>bh. - 5 \<le> bh \<and> bh \<le> 5 \<longrightarrow>
        collision (ball g) bh
          (ob\<lparr>obs_y := obs_y ob + (2 + real_of_int \<lfloor>real_of_int s / 100\<rfloor> * speedStep v)\<rparr>)"
    and ballok: "index (getCurrentLevelColors l) (ball_colorIndex (ball g)) \<noteq> None"
  shows "\<exists>g'. frame v sync s l h g = Inr g' \<and> obstacles g' = [] \<and> \<not> gameRunning g'
      \<and> highScore g' = max s h \<and> score g' = score g \<and> showPopup g'
      \<and> startsWith (popupText g') ''Game Over''"
proof -
  let ?colors = "getCurrentLevelColors l"
  from frame_shape [OF run, of sync s l v h] obtain g3 bh where
    f: "obstacles g3 = obstacles g" "obstacleTimer g3 = obstacleTimer g"
      "score g3 = score g"
      "ball g3 = (ball g)\<lparr>ball_bounceOffset :=
                       ball_bounceOffset (ball g) + ball_bounceSpeed (ball g)\<rparr>"
      "gameSpeed g3 = 2 + real_of_int \<lfloor>real_of_int s / 100\<rfloor> * speedStep v"
      "- 5 \<le> bh" "bh \<le> 5"
    and fr: "frame v sync s l h g =
          (case filterObstacles v s l h bh
                  (obstacles (generateObstacles v s ?colors g3))
                  (generateObstacles v s ?colors g3) of
             Inl e \<Rightarrow> Inl e
           | Inr (obs', g5) \<Rightarrow>
               draw v ?colors
                 (g5\<lparr>obstacles := obs', particles := updateParticles (particles g5)\<rparr>))"
    by blast
  define g4 where "g4 = g3\<lparr>obstacleTimer := obstacleTimer g + 1\<rparr>"
  have gen: "generateObstacles v s ?colors g3 = g4"
    using early f(2) generateObstacles_wait [of g3 v s ?colors] by (simp add: g4_def)
  have g4: "obstacles g4 = [ob]" "ball g4 = ball g3" "gameSpeed g4 = gameSpeed g3"
    "score g4 = score g"
    using f one by (simp_all add: g4_def)
  have hit4: "collision (ball g4) bh (ob\<lparr>obs_y := obs_y ob + gameSpeed g4\<rparr>)"
    using hit f(6,7) by (simp add: g4 f(4,5) collision_bounceOffset)
  have other4: "obs_colorIndex ob \<noteq> ball_colorIndex (ball g4)"
    using other by (simp add: g4 f(4))
  from updateObstacle_mismatch [OF hit4 fresh other4, of v s l h]
  obtain ps r where up: "updateObstacle v s l h bh ob g4 =
           Inr (False, ob\<lparr>obs_y := obs_y ob + gameSpeed g4\<rparr>,
                handleGameOver v s l h (g4\<lparr>particles := particles g4 @ ps, rng := r\<rparr>))"
    by blast
  define g5 where "g5 = handleGameOver v s l h (g4\<lparr>particles := particles g4 @ ps, rng := r\<rparr>)"
  have fo: "filterObstacles v s l h bh (obstacles g4) g4 = Inr ([], g5)"
    using up by (simp add: g4(1) g5_def)
  let ?g' = "g5\<lparr>obstacles := [], particles := updateParticles (particles g5)\<rparr>"
  have b5: "ball g5 = ball g3" by (simp add: g5_def handleGameOver_frame g4)
  have "draw v ?colors ?g' = Inr ?g'"
    using ballok by (simp add: draw_eq b5 f(4))
  then have "frame v sync s l h g = Inr ?g'"
    unfolding fr gen using fo by simp
  moreover have "\<not> gameRunning ?g'" "highScore ?g' = max s h" "score ?g' = score g"
    "showPopup ?g'" "startsWith (popupText ?g') ''Game Over''" "obstacles ?g' = []"
    by (simp_all add: g5_def handleGameOver_fields startsWith_gameOverText g4)
  ultimately show ?thesis by blast
qed

text \<open>
  C4. The game is running, the ball's box overlaps a gate that is not yet passed (after the
  gate has moved in this frame), the gate has the colour of the ball, and that colour is one
  of the level's colours. Then the filter callback raises the score by exactly 10, leaves
  the gate marked as passed, and the session is not over afterwards: in
  \<^verbatim>\<open>GameCanvas.tsx\<close> it keeps running, in \<^verbatim>\<open>part_000\<close> it runs or pauses for the level-up.
\<close>

theorem matching_collision_scores:
  assumes run: "session g = Running"
    and hit: "collision (ball g) bounceHeight (ob\<lparr>obs_y := obs_y ob + gameSpeed g\<rparr>)"
    and fresh: "\<not> obs_passed ob"
    and same: "obs_colorIndex ob = ball_colorIndex (ball g)"
    and lo: "0 \<le> obs_colorIndex ob"
    and hi: "obs_colorIndex ob < int (length (getCurrentLevelColors level0))"
  shows "\<exists>keep ob' g'.
           updateObstacle v score0 level0 highScore0 bounceHeight ob g = Inr (keep, ob', g')
           \<and> score g' = score g + 10
           \<and> obs_passed ob'
           \<and> session g' \<noteq> Ended
           \<and> (v = GameCanvas_tsx \<longrightarrow> session g' = Running)"
proof -
  obtain ps r where eq: "updateObstacle v score0 level0 highScore0 bounceHeight ob g =
           Inr (obs_y ob + gameSpeed g < canvasHeight + 50,
                ob\<lparr>obs_y := obs_y ob + gameSpeed g, obs_passed := True\<rparr>,
                (scoreMatch v level0 g)\<lparr>particles := particles g @ ps, rng := r\<rparr>)"
    using updateObstacle_match [OF hit fresh same lo hi] by blast
  let ?g' = "(scoreMatch v level0 g)\<lparr>particles := particles g @ ps, rng := r\<rparr>"
  have "score ?g' = score g + 10" by (simp add: scoreMatch_score)
  moreover have "session ?g' \<noteq> Ended" using run by (simp add: scoreMatch_not_ended)
  moreover have "v = GameCanvas_tsx \<longrightarrow> session ?g' = Running"
    using run by (simp add: scoreMatch_GameCanvas_running)
  ultimately show ?thesis using eq by simp
qed

theorem matching_collision_scores_witness:
  "session (playing 0 2 2) = Running
   \<and> collision (ball (playing 0 2 2)) 0
        ((gateAt 450 2)\<lparr>obs_y := obs_y (gateAt 450 2) + gameSpeed (playing 0 2 2)\<rparr>)
   \<and> \<not> obs_passed (gateAt 450 2)
   \<and> obs_colorIndex (gateAt 450 2) = ball_colorIndex (ball (playing 0 2 2))
   \<and> 0 \<le> obs_colorIndex (gateAt 450 2)
   \<and> obs_colorIndex (gateAt 450 2) < int (length (getCurrentLevelColors 2))
   \<and> (\<exists>keep ob' g'.
         updateObstacle GameCanvas_tsx 0 2 0 0 (gateAt 450 2) (playing 0 2 2) = Inr (keep, ob', g')
         \<and> score g' = 10 \<and> obs_passed ob' \<and> session g' = Running)"
proof -
  have h1: "session (playing 0 2 2) = Running" by (rule session_playing)
  have h2: "collision (ball (playing 0 2 2)) 0
        ((gateAt 450 2)\<lparr>obs_y := obs_y (gateAt 450 2) + gameSpeed (playing 0 2 2)\<rparr>)"
    using collision_playing_gate [of 0 0 2 2 2] by (simp add: playing_fields)
  have h3: "\<not> obs_passed (gateAt 450 2)" by (simp add: gateAt_def)
  have h4: "obs_colorIndex (gateAt 450 2) = ball_colorIndex (ball (playing 0 2 2))"
    by (simp add: gateAt_def playing_fields)
  have h5: "0 \<le> obs_colorIndex (gateAt 450 2)" by (simp add: gateAt_def)
  have h6: "obs_colorIndex (gateAt 450 2) < int (length (getCurrentLevelColors 2))"
    by (simp add: gateAt_def palette_sizes)
  from matching_collision_scores [OF h1 h2 h3 h4 h5 h6, of GameCanvas_tsx 0 0]
  have "\<exists>keep ob' g'.
         updateObstacle GameCanvas_tsx 0 2 0 0 (gateAt 450 2) (playing 0 2 2) = Inr (keep, ob', g')
         \<and> score g' = 10 \<and> obs_passed ob' \<and> session g' = Running"
    by (auto simp: playing_fields)
  with h1 h2 h3 h4 h5 h6 show ?thesis by blast
qed

text \<open>
  C5. The game is running and the ball's box overlaps a gate that is not yet passed and has
  another colour than the ball. Then the filter callback ends the game (the game stops and
  the popup shows the game-over text), leaves the score as it was, and answers that the gate
  is not kept, so the gate is not in the list the filter returns.
\<close>

theorem mismatching_collision_ends:
  assumes run: "session g = Running"
    and hit: "collision (ball g) bounceHeight (ob\<lparr>obs_y := obs_y ob + gameSpeed g\<rparr>)"
    and fresh: "\<not> obs_passed ob"
    and other: "obs_colorIndex ob \<noteq> ball_colorIndex (ball g)"
  shows "\<exists>ob' g'.
           updateObstacle v score0 level0 highScore0 bounceHeight ob g = Inr (False, ob', g')
           \<and> session g' = Ended
           \<and> score g' = score g
           \<and> showPopup g'
           \<and> filterObstacles v score0 level0 highScore0 bounceHeight (ob # obs) g
               = filterObstacles v score0 level0 highScore0 bounceHeight obs g'"
proof -
  obtain ps r where eq: "updateObstacle v score0 level0 highScore0 bounceHeight ob g =
           Inr (False, ob\<lparr>obs_y := obs_y ob + gameSpeed g\<rparr>,
                handleGameOver v score0 level0 highScore0 (g\<lparr>particles := particles g @ ps, rng := r\<rparr>))"
    using updateObstacle_mismatch [OF hit fresh other] by blast
  let ?g' = "handleGameOver v score0 level0 highScore0 (g\<lparr>particles := particles g @ ps, rng := r\<rparr>)"
  have hook: "gameStartedHook g" using run by (auto simp: session_def split: if_splits)
  have "session ?g' = Ended"
    using hook by (simp add: session_def handleGameOver_fields startsWith_gameOverText)
  moreover have "score ?g' = score g" "showPopup ?g'"
    by (simp_all add: handleGameOver_fields)
  moreover note filterObstacles_dropped [OF eq]
  ultimately show ?thesis using eq by blast
qed

theorem mismatching_collision_ends_witness:
  "session (playing 30 2 1) = Running
   \<and> collision (ball (playing 30 2 1)) 0
        ((gateAt 450 2)\<lparr>obs_y := obs_y (gateAt 450 2) + gameSpeed (playing 30 2 1)\<rparr>)
   \<and> \<not> obs_passed (gateAt 450 2)
   \<and> obs_colorIndex (gateAt 450 2) \<noteq> ball_colorIndex (ball (playing 30 2 1))
   \<and> (\<exists>ob' g'.
         updateObstacle GameCanvas_tsx 30 2 0 0 (gateAt 450 2) (playing 30 2 1) = Inr (False, ob', g')
         \<and> session g' = Ended \<and> score g' = 30
         \<and> filterObstacles GameCanvas_tsx 30 2 0 0 [gateAt 450 2] (playing 30 2 1) = Inr ([], g'))
   \<and> (\<exists>g'. animate Part_000 ((playing 30 2 1)\<lparr>obstacles := [gateAt 450 2]\<rparr>) = Inr g'
         \<and> obstacles g' = [] \<and> session g' = Ended \<and> score g' = 30)"
proof -
  have h1: "session (playing 30 2 1) = Running" by (rule session_playing)
  have h2: "collision (ball (playing 30 2 1)) 0
        ((gateAt 450 2)\<lparr>obs_y := obs_y (gateAt 450 2) + gameSpeed (playing 30 2 1)\<rparr>)"
    using collision_playing_gate [of 0 30 2 1 2] by (simp add: playing_fields)
  have h3: "\<not> obs_passed (gateAt 450 2)" by (simp add: gateAt_def)
  have h4: "obs_colorIndex (gateAt 450 2) \<noteq> ball_colorIndex (ball (playing 30 2 1))"
    by (simp add: gateAt_def playing_fields)
  from mismatching_collision_ends [OF h1 h2 h3 h4, of GameCanvas_tsx 30 2 0 "[]"]
  have a: "\<exists>ob' g'.
         updateObstacle GameCanvas_tsx 30 2 0 0 (gateAt 450 2) (playing 30 2 1) = Inr (False, ob', g')
         \<and> session g' = Ended \<and> score g' = 30
         \<and> filterObstacles GameCanvas_tsx 30 2 0 0 [gateAt 450 2] (playing 30 2 1) = Inr ([], g')"
    by (auto simp: playing_fields)
  let ?g = "(playing 30 2 1)\<lparr>obstacles := [gateAt 450 2]\<rparr>"
  have hit: "\<forall>bh. - 5 \<le> bh \<and> bh \<le> 5 \<longrightarrow>
        collision (ball ?g) bh
          ((gateAt 450 2)\<lparr>obs_y := obs_y (gateAt 450 2)
             + (2 + real_of_int \<lfloor>real_of_int (score ?g) / 100\<rfloor> * speedStep Part_000)\<rparr>)"
    using collision_playing_gate [of _ 30 2 1 2] by (simp add: playing_fields)
  have "\<exists>g'. frame Part_000 True (score ?g) (level ?g) (highScore ?g) ?g = Inr g'
      \<and> obstacles g' = [] \<and> \<not> gameRunning g'
      \<and> highScore g' = max (score ?g) (highScore ?g) \<and> score g' = score ?g \<and> showPopup g'
      \<and> startsWith (popupText g') ''Game Over''"
  proof (rule frame_game_over [OF _ _ _ h3 _ hit])
    show "gameRunning ?g" by (simp add: playing_fields)
    show "obstacles ?g = [gateAt 450 2]" by simp
    show "obstacleTimer ?g + 1 < obstacleFrequency Part_000 (score ?g)"
      by (simp add: playing_fields obstacleFrequency_div)
    show "obs_colorIndex (gateAt 450 2) \<noteq> ball_colorIndex (ball ?g)"
      by (simp add: playing_fields gateAt_def)
    show "index (getCurrentLevelColors (level ?g)) (ball_colorIndex (ball ?g)) \<noteq> None"
      by (simp add: playing_fields index_def palette_sizes)
  qed
  then obtain g' where fr: "frame Part_000 True (score ?g) (level ?g) (highScore ?g) ?g = Inr g'"
    and g': "obstacles g' = []" "\<not> gameRunning g'" "score g' = score ?g"
      "startsWith (popupText g') ''Game Over''"
    by blast
  have "gameStartedHook g'"
    using frame_result [OF fr] by (simp add: playing_fields)
  then have "session g' = Ended" using g' by (simp add: session_def)
  then have b: "\<exists>g'. animate Part_000 ?g = Inr g'
         \<and> obstacles g' = [] \<and> session g' = Ended \<and> score g' = 30"
    using fr g' by (auto simp: animate_def playing_fields)
  from h1 h2 h3 h4 a b show ?thesis by blast
qed

text \<open>
  C6. A call of the filter callback never takes the \<open>passed\<close> flag of a gate from true to
  false, gives no points for a gate that is already passed, and when it gives points it
  gives exactly 10 and turns the flag from false to true. So over any sequence of frames in
  which the gate's colour is one of the level's colours, a gate earns 10 points at most
  once, and nothing once it is passed.
\<close>

theorem gate_scored_at_most_once:
  "(\<forall>keep ob' g'.
      updateObstacle v score0 level0 highScore0 bounceHeight ob g = Inr (keep, ob', g') \<longrightarrow>
        (obs_passed ob \<longrightarrow> obs_passed ob' \<and> score g' = score g)
        \<and> (score g' = score g
            \<or> (score g' = score g + 10 \<and> \<not> obs_passed ob \<and> obs_passed ob')))
   \<and> ((\<forall>(v, s, l, h, bh, g) \<in> set fs.
          index (getCurrentLevelColors l) (obs_colorIndex ob) \<noteq> None) \<longrightarrow>
        (obs_passed ob \<longrightarrow> gateAwards fs ob = 0)
        \<and> (gateAwards fs ob = 0 \<or> gateAwards fs ob = 10))"
  using updateObstacle_award [of v score0 level0 highScore0 bounceHeight ob g]
    gateAwards_passed [of ob fs] gateAwards_bound [of fs ob]
  by blast

theorem gate_scored_at_most_once_witness:
  "index (getCurrentLevelColors 2) (obs_colorIndex (gateAt 450 2)) \<noteq> None
   \<and> (\<exists>keep ob' g'.
         updateObstacle Part_000 0 2 0 0 (gateAt 450 2) (playing 0 2 2) = Inr (keep, ob', g')
         \<and> score g' = score (playing 0 2 2) + 10 \<and> \<not> obs_passed (gateAt 450 2) \<and> obs_passed ob')
   \<and> gateAwards [(Part_000, 0, 2, 0, 0, playing 0 2 2),
                  (Part_000, 10, 2, 0, 0, playing 10 2 2)] (gateAt 450 2) = 10"
proof -
  let ?fs = "[(Part_000, 0, 2, 0, 0, playing 0 2 2), (Part_000, 10, 2, 0, 0, playing 10 2 2)]"
  let ?ob = "gateAt 450 2"
  have valid: "\<forall>(v, s, l, h, bh, g) \<in> set ?fs.
       index (getCurrentLevelColors l) (obs_colorIndex ?ob) \<noteq> None"
    by (simp add: index_def gateAt_def palette_sizes)
  have hit: "collision (ball (playing 0 2 2)) 0 (?ob\<lparr>obs_y := obs_y ?ob + gameSpeed (playing 0 2 2)\<rparr>)"
    using collision_playing_gate [of 0 0 2 2 2] by (simp add: playing_fields)
  have fresh: "\<not> obs_passed ?ob" by (simp add: gateAt_def)
  have same: "obs_colorIndex ?ob = ball_colorIndex (ball (playing 0 2 2))"
    by (simp add: gateAt_def playing_fields)
  have lo: "0 \<le> obs_colorIndex ?ob" by (simp add: gateAt_def)
  have hi: "obs_colorIndex ?ob < int (length (getCurrentLevelColors 2))"
    by (simp add: gateAt_def palette_sizes)
  from updateObstacle_match [OF hit fresh same lo hi, of Part_000 0 0]
  obtain ps r where first: "updateObstacle Part_000 0 2 0 0 ?ob (playing 0 2 2) =
      Inr (obs_y ?ob + gameSpeed (playing 0 2 2) < canvasHeight + 50,
           ?ob\<lparr>obs_y := obs_y ?ob + gameSpeed (playing 0 2 2), obs_passed := True\<rparr>,
           (scoreMatch Part_000 2 (playing 0 2 2))\<lparr>particles := particles (playing 0 2 2) @ ps, rng := r\<rparr>)"
    by blast
  let ?ob1 = "?ob\<lparr>obs_y := obs_y ?ob + gameSpeed (playing 0 2 2), obs_passed := True\<rparr>"
  let ?g1 = "(scoreMatch Part_000 2 (playing 0 2 2))\<lparr>particles := particles (playing 0 2 2) @ ps, rng := r\<rparr>"
  have keep: "obs_y ?ob + gameSpeed (playing 0 2 2) < canvasHeight + 50"
    by (simp add: gateAt_def playing_fields canvasHeight_def)
  have sc1: "score ?g1 = score (playing 0 2 2) + 10" by (simp add: scoreMatch_score)
  from gate_scored_at_most_once [of Part_000 0 2 0 0 ?ob "playing 0 2 2" ?fs] first valid
  have once: "gateAwards ?fs ?ob = 0 \<or> gateAwards ?fs ?ob = 10"
    and step1: "score ?g1 = score (playing 0 2 2)
        \<or> (score ?g1 = score (playing 0 2 2) + 10 \<and> \<not> obs_passed ?ob \<and> obs_passed ?ob1)"
    by blast+
  have "gateAwards [(Part_000, 10, 2, 0, 0, playing 10 2 2)] ?ob1 = 0"
    by (rule gateAwards_passed) simp
  then have "gateAwards ?fs ?ob = 10"
    using first keep sc1 by simp
  moreover have "\<exists>keep ob' g'.
         updateObstacle Part_000 0 2 0 0 ?ob (playing 0 2 2) = Inr (keep, ob', g')
         \<and> score g' = score (playing 0 2 2) + 10 \<and> \<not> obs_passed ?ob \<and> obs_passed ob'"
    using first sc1 step1 by auto
  moreover have "index (getCurrentLevelColors 2) (obs_colorIndex ?ob) \<noteq> None"
    using valid by simp
  ultimately show ?thesis by blast
qed

text \<open>
  C7. The particle update of a frame lowers the lifetime of every particle by exactly 1 and
  keeps exactly those whose lifetime was above 1, so every particle left has a positive
  lifetime. When all lifetimes were at least 1 before, no lifetime goes below zero, and a
  particle is dropped exactly when its lifetime has come down to zero. A frame of a running
  game applies this update to the particles it started with followed by those created in
  the frame (with lifetime 60 or 30), so no particle with a lifetime of zero or less is
  left after a frame.
\<close>

theorem particle_lifetimes:
  "updateParticles ps = map moveParticle (filter (\<lambda>p. 1 < part_life p) ps)
   \<and> (\<forall>p. part_life (moveParticle p) = part_life p - 1)
   \<and> (\<forall>q \<in> set (updateParticles ps). 0 < part_life q)
   \<and> ((\<forall>p \<in> set ps. 1 \<le> part_life p) \<longrightarrow>
        (\<forall>p \<in> set ps. 0 \<le> part_life (moveParticle p)
           \<and> (moveParticle p \<notin> set (updateParticles ps) \<longleftrightarrow> part_life (moveParticle p) = 0)))
   \<and> (\<forall>g'. gameRunning g \<and> frame v sync score0 level0 highScore0 g = Inr g' \<longrightarrow>
        (\<exists>new. particles g' = updateParticles (particles g @ new)
           \<and> (\<forall>p \<in> set new. part_life p = 60 \<or> part_life p = 30))
        \<and> (\<forall>q \<in> set (particles g'). 0 < part_life q))"
proof -
  have a: "\<forall>q \<in> set (updateParticles ps). 0 < part_life q"
    by (rule updateParticles_positive)
  have b: "moveParticle p \<notin> set (updateParticles ps) \<longleftrightarrow> part_life (moveParticle p) = 0"
    if "p \<in> set ps" "1 \<le> part_life p" for p
  proof
    assume "moveParticle p \<notin> set (updateParticles ps)"
    then have "\<not> 0 < part_life (moveParticle p)"
      using that(1) by (auto simp: updateParticles_def)
    then show "part_life (moveParticle p) = 0"
      using that(2) by (simp add: part_life_moveParticle)
  next
    assume "part_life (moveParticle p) = 0"
    then show "moveParticle p \<notin> set (updateParticles ps)" using a by auto
  qed
  have c: "0 \<le> part_life (moveParticle p)" if "1 \<le> part_life p" for p
    using that by (simp add: part_life_moveParticle)
  have d: "(\<exists>new. particles g' = updateParticles (particles g @ new)
           \<and> (\<forall>p \<in> set new. part_life p = 60 \<or> part_life p = 30))
        \<and> (\<forall>q \<in> set (particles g'). 0 < part_life q)"
    if "gameRunning g" "frame v sync score0 level0 highScore0 g = Inr g'" for g'
  proof -
    from frame_result [OF that(2)] that(1)
    obtain new where new: "particles g' = updateParticles (particles g @ new)"
      "\<forall>p \<in> set new. part_life p = 60 \<or> part_life p = 30"
      by blast
    then have "\<forall>q \<in> set (particles g'). 0 < part_life q"
      using updateParticles_positive [of "particles g @ new"] by simp
    with new show ?thesis by blast
  qed
  show ?thesis
    using updateParticles_map_filter [of ps] part_life_moveParticle a b c d by blast
qed

theorem particle_lifetimes_witness:
  "1 \<le> part_life \<lparr>part_x = 150, part_y = 500, part_vx = 1, part_vy = - 2, part_life = 1,
                   part_color = ''#ff4444''\<rparr>
   \<and> 1 \<le> part_life \<lparr>part_x = 160, part_y = 490, part_vx = 2, part_vy = - 3, part_life = 2,
                   part_color = ''#ff4444''\<rparr>
   \<and> updateParticles
        [\<lparr>part_x = 150, part_y = 500, part_vx = 1, part_vy = - 2, part_life = 1,
          part_color = ''#ff4444''\<rparr>,
         \<lparr>part_x = 160, part_y = 490, part_vx = 2, part_vy = - 3, part_life = 2,
          part_color = ''#ff4444''\<rparr>]
      = [\<lparr>part_x = 162, part_y = 487, part_vx = 2, part_vy = - 2.7, part_life = 1,
          part_color = ''#ff4444''\<rparr>]
   \<and> gameRunning ((playing 0 1 0)\<lparr>particles :=
        [\<lparr>part_x = 150, part_y = 500, part_vx = 1, part_vy = - 2, part_life = 1,
          part_color = ''#ff4444''\<rparr>,
         \<lparr>part_x = 160, part_y = 490, part_vx = 2, part_vy = - 3, part_life = 2,
          part_color = ''#ff4444''\<rparr>]\<rparr>)
   \<and> (\<exists>g'. frame Part_000 True 0 1 0 ((playing 0 1 0)\<lparr>particles :=
        [\<lparr>part_x = 150, part_y = 500, part_vx = 1, part_vy = - 2, part_life = 1,
          part_color = ''#ff4444''\<rparr>,
         \<lparr>part_x = 160, part_y = 490, part_vx = 2, part_vy = - 3, part_life = 2,
          part_color = ''#ff4444''\<rparr>]\<rparr>) = Inr g'
        \<and> map part_life (particles g') = [1])"
proof -
  let ?p1 = "\<lparr>part_x = 150, part_y = 500, part_vx = 1, part_vy = - 2, part_life = 1,
                   part_color = ''#ff4444''\<rparr>"
  let ?p2 = "\<lparr>part_x = 160, part_y = 490, part_vx = 2, part_vy = - 3, part_life = 2,
                   part_color = ''#ff4444''\<rparr>"
  let ?g = "(playing 0 1 0)\<lparr>particles := [?p1, ?p2]\<rparr>"
  have lives: "\<forall>p \<in> set [?p1, ?p2]. 1 \<le> part_life p" by simp
  have run: "gameRunning ?g" by (simp add: playing_fields)
  have empty: "obstacles ?g = []" by (simp add: playing_fields)
  have early: "obstacleTimer ?g + 1 < obstacleFrequency Part_000 0"
    by (simp add: playing_fields obstacleFrequency_div)
  have ballok: "index (getCurrentLevelColors 1) (ball_colorIndex (ball ?g)) \<noteq> None"
    by (simp add: playing_fields index_def palette_sizes)
  obtain g' where fr: "frame Part_000 True 0 1 0 ?g = Inr g'"
    using frame_quiet_total [OF run empty early ballok] by blast
  note t = particle_lifetimes [of "[?p1, ?p2]" ?g Part_000 True 0 1 0]
  from t have upd: "updateParticles [?p1, ?p2] = map moveParticle (filter (\<lambda>p. 1 < part_life p) [?p1, ?p2])"
    by blast
  then have upd': "updateParticles [?p1, ?p2] =
      [\<lparr>part_x = 162, part_y = 487, part_vx = 2, part_vy = - 2.7, part_life = 1,
          part_color = ''#ff4444''\<rparr>]"
    by (simp add: moveParticle_def)
  from frame_quiet [OF run empty early fr]
  have "particles g' = updateParticles [?p1, ?p2]" by simp
  then have "map part_life (particles g') = [1]" by (simp add: upd')
  with fr have ex: "\<exists>g'. frame Part_000 True 0 1 0 ?g = Inr g'
        \<and> map part_life (particles g') = [1]"
    by (intro exI [of _ g']) simp
  have l1: "1 \<le> part_life ?p1" and l2: "1 \<le> part_life ?p2" by simp_all
  show ?thesis
    by (rule conjI [OF l1 conjI [OF l2 conjI [OF upd' conjI [OF run ex]]]])
qed

lemma updateObstacle_box:
  assumes "updateObstacle v s l h bh ob g = Inr (keep, ob', g')"
  shows "obs_x ob' = obs_x ob \<and> obs_width ob' = obs_width ob"
  using assms unfolding updateObstacle_def markPassed_def Let_def
  by (auto split: if_splits option.splits)

lemma filterObstacles_box:
  assumes "filterObstacles v s l h bh obs g = Inr (obs', g')"
  shows "\<forall>ob' \<in> set obs'. \<exists>ob \<in> set obs. obs_x ob' = obs_x ob \<and> obs_width ob' = obs_width ob"
  using assms
proof (induction obs arbitrary: g obs' g')
  case Nil
  then show ?case by simp
next
  case (Cons ob obs)
  from Cons.prems obtain keep ob1 g1 obs1 where
    first: "updateObstacle v s l h bh ob g = Inr (keep, ob1, g1)"
    and rest: "filterObstacles v s l h bh obs g1 = Inr (obs1, g')"
    and res: "obs' = (if keep then ob1 # obs1 else obs1)"
    by (auto split: sum.splits)
  from updateObstacle_box [OF first] Cons.IH [OF rest] res
  show ?case by (auto split: if_splits)
qed

lemma frame_centred:
  assumes run: "gameRunning g" and res: "frame v sync s l h g = Inr g'"
    and before: "v = Part_000 \<longrightarrow>
      (\<forall>ob \<in> set (obstacles g). obs_x ob + obs_width ob / 2 = canvasWidth / 2)"
  shows "\<forall>ob \<in> set (obstacles g'). obs_x ob + obs_width ob / 2 = canvasWidth / 2"
proof (cases v)
  case GameCanvas_tsx
  from frame_result [OF res] run obtain obs where "obstacles g' = map (placeGate v) obs"
    by blast
  then show ?thesis
    using GameCanvas_tsx by (auto simp: placeGate_GameCanvas canvasWidth_def)
next
  case Part_000
  let ?colors = "getCurrentLevelColors l"
  from frame_shape [OF run, of sync s l v h] obtain g3 bh where
    f: "obstacles g3 = obstacles g"
    and fr: "frame v sync s l h g =
          (case filterObstacles v s l h bh
                  (obstacles (generateObstacles v s ?colors g3))
                  (generateObstacles v s ?colors g3) of
             Inl e \<Rightarrow> Inl e
           | Inr (obs', g5) \<Rightarrow>
               draw v ?colors
                 (g5\<lparr>obstacles := obs', particles := updateParticles (particles g5)\<rparr>))"
    by blast
  define g4 where "g4 = generateObstacles v s ?colors g3"
  have c4: "\<forall>ob \<in> set (obstacles g4). obs_x ob + obs_width ob / 2 = canvasWidth / 2"
    using generateObstacles_shape [of v s ?colors g3] newObstacle_snd [of v ?colors g3]
      before f Part_000
    by (auto simp: g4_def newObstacle_Part_000)
  from res obtain obs' g5 where
    fo: "filterObstacles v s l h bh (obstacles g4) g4 = Inr (obs', g5)"
    and dr: "draw v ?colors
               (g5\<lparr>obstacles := obs', particles := updateParticles (particles g5)\<rparr>) = Inr g'"
    unfolding fr g4_def [symmetric]
    by (auto split: sum.splits)
  from dr have g': "obstacles g' = map (placeGate v) obs'"
    by (auto simp: draw_eq split: if_splits)
  have "\<forall>ob \<in> set obs'. obs_x ob + obs_width ob / 2 = canvasWidth / 2"
    using filterObstacles_box [OF fo] c4 by fastforce
  then show ?thesis
    using g' Part_000 by (simp add: placeGate_Part_000)
qed

text \<open>
  C8 (as amended). Every frame adds 1 to the spawn timer. The threshold
  \<open>obstacleFrequency\<close> does not grow with the score and never goes below its floor (40 in
  \<^verbatim>\<open>GameCanvas.tsx\<close>, reached at score 2000; 50 in \<^verbatim>\<open>part_000\<close>, reached at score 10000).
  When the timer reaches the threshold, exactly one gate is appended, not passed, wholly
  above the canvas, with a colour index in \<open>[0, n)\<close> for the \<open>n\<close> colours of the level
  (\<^verbatim>\<open>Math.random()\<close> answering in \<open>[0, 1)\<close>), and the timer goes back to 0; otherwise
  only the timer changes. \<^verbatim>\<open>part_000\<close> creates the gate centred on the canvas.
  \<^verbatim>\<open>GameCanvas.tsx\<close> creates it with its left edge at the random position
  \<^verbatim>\<open>Math.random() * (canvasWidth - 80) + 40\<close>, and the drawing code of the same frame
  moves every gate to the centre. So at the end of a frame every gate is centred on the
  canvas (in \<^verbatim>\<open>part_000\<close>: when those at the start of the frame were), and the timer is
  0 if a gate was spawned and one more than before if not.
\<close>

theorem gate_spawning:
  assumes r1: "0 \<le> shd (rng g)" "shd (rng g) < 1"
    and r2: "0 \<le> shd (stl (rng g))" "shd (stl (rng g)) < 1"
    and lev: "1 \<le> level0"
    and cols: "colors = getCurrentLevelColors level0"
  shows "(obstacleTimer g + 1 < obstacleFrequency v score0 \<longrightarrow>
            generateObstacles v score0 colors g = g\<lparr>obstacleTimer := obstacleTimer g + 1\<rparr>)
       \<and> (obstacleFrequency v score0 \<le> obstacleTimer g + 1 \<longrightarrow>
            (\<exists>ob r. generateObstacles v score0 colors g =
                      g\<lparr>obstacles := obstacles g @ [ob], obstacleTimer := 0, rng := r\<rparr>
              \<and> \<not> obs_passed ob
              \<and> obs_y ob + obs_height ob \<le> 0
              \<and> 0 \<le> obs_colorIndex ob \<and> obs_colorIndex ob < int (length colors)
              \<and> (v = Part_000 \<longrightarrow> obs_x ob + obs_width ob / 2 = canvasWidth / 2)
              \<and> (v = GameCanvas_tsx \<longrightarrow> obs_x ob = shd (rng g) * (canvasWidth - 80) + 40)))
       \<and> (\<forall>g'. gameRunning g \<and> frame v sync score0 level0 highScore0 g = Inr g'
              \<and> (v = Part_000 \<longrightarrow>
                    (\<forall>ob \<in> set (obstacles g). obs_x ob + obs_width ob / 2 = canvasWidth / 2))
            \<longrightarrow> (\<forall>ob \<in> set (obstacles g'). obs_x ob + obs_width ob / 2 = canvasWidth / 2)
              \<and> obstacleTimer g' =
                  (if obstacleFrequency v score0 \<le> obstacleTimer g + 1 then 0
                   else obstacleTimer g + 1))
       \<and> (\<forall>s t. s \<le> t \<longrightarrow> obstacleFrequency v t \<le> obstacleFrequency v s)
       \<and> (\<forall>s. obstacleFrequency v s \<ge> (case v of GameCanvas_tsx \<Rightarrow> 40 | Part_000 \<Rightarrow> 50))
       \<and> obstacleFrequency v (case v of GameCanvas_tsx \<Rightarrow> 2000 | Part_000 \<Rightarrow> 10000)
            = (case v of GameCanvas_tsx \<Rightarrow> 40 | Part_000 \<Rightarrow> 50)"
proof -
  have n: "0 < length colors"
    using length_getCurrentLevelColors [OF lev] lev cols by auto
  have floor_reached: "obstacleFrequency v (case v of GameCanvas_tsx \<Rightarrow> 2000 | Part_000 \<Rightarrow> 10000)
            = (case v of GameCanvas_tsx \<Rightarrow> 40 | Part_000 \<Rightarrow> 50)"
    by (cases v) (simp_all add: obstacleFrequency_div)
  have fr: "(\<forall>ob \<in> set (obstacles g'). obs_x ob + obs_width ob / 2 = canvasWidth / 2)
              \<and> obstacleTimer g' =
                  (if obstacleFrequency v score0 \<le> obstacleTimer g + 1 then 0
                   else obstacleTimer g + 1)"
    if "gameRunning g" "frame v sync score0 level0 highScore0 g = Inr g'"
      "v = Part_000 \<longrightarrow>
         (\<forall>ob \<in> set (obstacles g). obs_x ob + obs_width ob / 2 = canvasWidth / 2)" for g'
    using frame_centred [OF that] frame_result [OF that(2)] that(1) by blast
  show ?thesis
    using generateObstacles_wait [of g v score0 colors]
      generateObstacles_due [OF r1 r2 n, of v score0] fr
      obstacleFrequency_antimono [of _ _ v] obstacleFrequency_floor [of v] floor_reached
    by blast
qed

lemma frame_spawn_GameCanvas_example:
  "\<exists>g'. frame GameCanvas_tsx True 0 1 0 ((playing 0 1 0)\<lparr>obstacleTimer := 79\<rparr>) = Inr g'
     \<and> obstacles g' = [\<lparr>obs_x = 100, obs_y = - 48, obs_width = 120, obs_height = 60,
                        obs_colorIndex = 1, obs_passed = False\<rparr>]"
proof -
  let ?g = "(playing 0 1 0)\<lparr>obstacleTimer := 79\<rparr>"
  let ?colors = "getCurrentLevelColors 1"
  have run: "gameRunning ?g" by (simp add: playing_fields)
  from frame_shape [OF run, of True 0 1 GameCanvas_tsx 0] obtain g3 bh where
    f: "obstacles g3 = obstacles ?g" "particles g3 = particles ?g" "rng g3 = rng ?g"
      "obstacleTimer g3 = obstacleTimer ?g"
      "ball g3 = (ball ?g)\<lparr>ball_bounceOffset :=
                       ball_bounceOffset (ball ?g) + ball_bounceSpeed (ball ?g)\<rparr>"
      "gameSpeed g3 = 2 + real_of_int \<lfloor>real_of_int 0 / 100\<rfloor> * speedStep GameCanvas_tsx"
      "- 5 \<le> bh" "bh \<le> 5"
    and fr: "frame GameCanvas_tsx True 0 1 0 ?g =
          (case filterObstacles GameCanvas_tsx 0 1 0 bh
                  (obstacles (generateObstacles GameCanvas_tsx 0 ?colors g3))
                  (generateObstacles GameCanvas_tsx 0 ?colors g3) of
             Inl e \<Rightarrow> Inl e
           | Inr (obs', g5) \<Rightarrow>
               draw GameCanvas_tsx ?colors
                 (g5\<lparr>obstacles := obs', particles := updateParticles (particles g5)\<rparr>))"
    by blast
  let ?ob0 = "\<lparr>obs_x = 160, obs_y = - 50, obs_width = 60, obs_height = 30,
               obs_colorIndex = 1, obs_passed = False\<rparr>"
  define g4 where "g4 = g3\<lparr>rng := stl (stl (rng g3)), obstacles := [?ob0], obstacleTimer := 0\<rparr>"
  have due: "obstacleFrequency GameCanvas_tsx 0 \<le> obstacleTimer g3 + 1"
    by (simp add: f obstacleFrequency_div)
  have gen: "generateObstacles GameCanvas_tsx 0 ?colors g3 = g4"
    unfolding generateObstacles_spawn [OF due] newObstacle_GameCanvas g4_def
    by (simp add: f playing_fields canvasWidth_def palette_sizes)
  have g4: "obstacles g4 = [?ob0]" "particles g4 = []" "gameSpeed g4 = 2"
    "ball g4 = (ball ?g)\<lparr>ball_bounceOffset :=
                       ball_bounceOffset (ball ?g) + ball_bounceSpeed (ball ?g)\<rparr>"
    by (simp_all add: g4_def f playing_fields)
  have miss: "\<not> collision (ball g4) bh (?ob0\<lparr>obs_y := obs_y ?ob0 + gameSpeed g4\<rparr>)"
    using f(7,8) by (simp add: g4 collision_def playing_ball Let_def)
  let ?ob1 = "\<lparr>obs_x = 160, obs_y = - 48, obs_width = 60, obs_height = 30,
               obs_colorIndex = 1, obs_passed = False\<rparr>"
  have "updateObstacle GameCanvas_tsx 0 1 0 bh ?ob0 g4 = Inr (True, ?ob1, g4)"
    unfolding updateObstacle_no_hit [of g4 bh ?ob0, OF disjI1 [OF miss]]
    by (simp add: markPassed_def g4 playing_ball canvasHeight_def)
  then have fo: "filterObstacles GameCanvas_tsx 0 1 0 bh (obstacles g4) g4 = Inr ([?ob1], g4)"
    by (simp add: g4(1))
  let ?g7 = "g4\<lparr>obstacles := [?ob1], particles := updateParticles (particles g4)\<rparr>"
  have "draw GameCanvas_tsx ?colors ?g7
      = Inr (?g7\<lparr>obstacles := map (placeGate GameCanvas_tsx) (obstacles ?g7)\<rparr>)"
    by (simp add: draw_eq index_def palette_sizes g4 playing_ball)
  then have "frame GameCanvas_tsx True 0 1 0 ?g
      = Inr (?g7\<lparr>obstacles := map (placeGate GameCanvas_tsx) (obstacles ?g7)\<rparr>)"
    unfolding fr gen using fo by simp
  then show ?thesis
    by (simp add: placeGate_GameCanvas)
qed

theorem gate_spawning_witness:
  "0 \<le> shd (rng ((playing 0 1 0)\<lparr>obstacleTimer := 79\<rparr>))
   \<and> shd (rng ((playing 0 1 0)\<lparr>obstacleTimer := 79\<rparr>)) < 1
   \<and> 0 \<le> shd (stl (rng ((playing 0 1 0)\<lparr>obstacleTimer := 79\<rparr>)))
   \<and> shd (stl (rng ((playing 0 1 0)\<lparr>obstacleTimer := 79\<rparr>))) < 1
   \<and> (1::int) \<le> 1
   \<and> obstacleFrequency GameCanvas_tsx 0 \<le> obstacleTimer ((playing 0 1 0)\<lparr>obstacleTimer := 79\<rparr>) + 1
   \<and> (\<exists>ob r. generateObstacles GameCanvas_tsx 0 (getCurrentLevelColors 1)
                 ((playing 0 1 0)\<lparr>obstacleTimer := 79\<rparr>) =
               (playing 0 1 0)\<lparr>obstacleTimer := 79, obstacles := [ob], obstacleTimer := 0, rng := r\<rparr>
        \<and> obs_y ob + obs_height ob \<le> 0
        \<and> 0 \<le> obs_colorIndex ob \<and> obs_colorIndex ob < 2
        \<and> obs_x ob = 160)
   \<and> gameRunning ((playing 0 1 0)\<lparr>obstacleTimer := 79\<rparr>)
   \<and> (\<exists>g'. frame GameCanvas_tsx True 0 1 0 ((playing 0 1 0)\<lparr>obstacleTimer := 79\<rparr>) = Inr g'
        \<and> map (\<lambda>ob. obs_x ob + obs_width ob / 2) (obstacles g') = [160]
        \<and> obstacleTimer g' = 0)
   \<and> obstacleTimer ((playing 0 1 0)\<lparr>obstacleTimer := 57\<rparr>) + 1 < obstacleFrequency Part_000 0
   \<and> generateObstacles Part_000 0 (getCurrentLevelColors 1) ((playing 0 1 0)\<lparr>obstacleTimer := 57\<rparr>)
        = (playing 0 1 0)\<lparr>obstacleTimer := 58\<rparr>
   \<and> obstacleFrequency Part_000 400 \<le> obstacleFrequency Part_000 0"
proof -
  let ?g = "(playing 0 1 0)\<lparr>obstacleTimer := 79\<rparr>"
  let ?w = "(playing 0 1 0)\<lparr>obstacleTimer := 57\<rparr>"
  have r: "0 \<le> shd (rng ?g)" "shd (rng ?g) < 1" "0 \<le> shd (stl (rng ?g))" "shd (stl (rng ?g)) < 1"
    and rw: "0 \<le> shd (rng ?w)" "shd (rng ?w) < 1" "0 \<le> shd (stl (rng ?w))" "shd (stl (rng ?w)) < 1"
    by (simp_all add: playing_fields)
  have l: "(1::int) \<le> 1" by simp
  have due: "obstacleFrequency GameCanvas_tsx 0 \<le> obstacleTimer ?g + 1"
    by (simp add: obstacleFrequency_div)
  have early: "obstacleTimer ?w + 1 < obstacleFrequency Part_000 0"
    by (simp add: obstacleFrequency_div)
  have run: "gameRunning ?g" by (simp add: playing_fields)
  note t = gate_spawning [OF r l refl, of GameCanvas_tsx 0 True 0]
  from t due obtain ob r' where sp: "generateObstacles GameCanvas_tsx 0 (getCurrentLevelColors 1) ?g =
        ?g\<lparr>obstacles := obstacles ?g @ [ob], obstacleTimer := 0, rng := r'\<rparr>"
      "obs_y ob + obs_height ob \<le> 0" "0 \<le> obs_colorIndex ob"
      "obs_colorIndex ob < int (length (getCurrentLevelColors 1))"
      "obs_x ob = shd (rng ?g) * (canvasWidth - 80) + 40"
    by blast
  have a: "\<exists>ob r. generateObstacles GameCanvas_tsx 0 (getCurrentLevelColors 1) ?g =
               (playing 0 1 0)\<lparr>obstacleTimer := 79, obstacles := [ob], obstacleTimer := 0, rng := r\<rparr>
        \<and> obs_y ob + obs_height ob \<le> 0
        \<and> 0 \<le> obs_colorIndex ob \<and> obs_colorIndex ob < 2
        \<and> obs_x ob = 160"
    using sp by (intro exI [of _ ob] exI [of _ r']) (simp add: playing_fields palette_sizes canvasWidth_def)
  obtain g' where fr: "frame GameCanvas_tsx True 0 1 0 ?g = Inr g'"
    and one: "obstacles g' = [\<lparr>obs_x = 100, obs_y = - 48, obs_width = 120, obs_height = 60,
                        obs_colorIndex = 1, obs_passed = False\<rparr>]"
    using frame_spawn_GameCanvas_example by blast
  from t run fr due have "obstacleTimer g' = 0" by simp
  then have b: "\<exists>g'. frame GameCanvas_tsx True 0 1 0 ?g = Inr g'
        \<and> map (\<lambda>ob. obs_x ob + obs_width ob / 2) (obstacles g') = [160]
        \<and> obstacleTimer g' = 0"
    using fr one by (intro exI [of _ g']) simp
  from gate_spawning [OF rw l refl, of Part_000 0] early
  have c: "generateObstacles Part_000 0 (getCurrentLevelColors 1) ?w = (playing 0 1 0)\<lparr>obstacleTimer := 58\<rparr>"
    by simp
  from gate_spawning [OF rw l refl, of Part_000] have d: "obstacleFrequency Part_000 400 \<le> obstacleFrequency Part_000 0"
    by simp
  show ?thesis
    by (rule conjI [OF r(1) conjI [OF r(2) conjI [OF r(3) conjI [OF r(4) conjI [OF l
          conjI [OF due conjI [OF a conjI [OF run conjI [OF b conjI [OF early conjI [OF c d]]]]]]]]]]])
qed

text \<open>
  C8 as it was stated has the gate spawned at a fixed horizontal centre position. In
  \<^verbatim>\<open>GameCanvas.tsx\<close> two frames that differ only in what \<^verbatim>\<open>Math.random()\<close> answers
  create their gates at different places, neither centred on the canvas.
\<close>

theorem gate_spawning_counterexample:
  "map (\<lambda>ob. obs_x ob + obs_width ob / 2)
     (obstacles (generateObstacles GameCanvas_tsx 0 (getCurrentLevelColors 1)
        ((playing 0 1 0)\<lparr>obstacleTimer := 79, rng := sconst 0\<rparr>))) = [70]
   \<and> map (\<lambda>ob. obs_x ob + obs_width ob / 2)
     (obstacles (generateObstacles GameCanvas_tsx 0 (getCurrentLevelColors 1)
        ((playing 0 1 0)\<lparr>obstacleTimer := 79, rng := sconst (3 / 4)\<rparr>))) = [250]
   \<and> canvasWidth / 2 = 160"
  by (simp add: generateObstacles_def newObstacle_def random_def obstacleFrequency_div
      playing_fields canvasWidth_def Let_def)

text \<open>
  C9 (\<^verbatim>\<open>part_000\<close>). When a gate of the ball's colour is hit and the level of the new
  score is above the level of the last render, the callback stops the game and opens the
  popup with the level-up text: the session is paused, the level hook holds the new level
  and the score the new score. Pressing the popup's button in that state empties the gate
  and particle lists and sets the spawn timer to 0, then runs the first frame of the resumed
  loop at once (which counts the timer to 1 and spawns nothing); the game runs again and
  score, level and the ball's colour index are as they were.
\<close>

theorem level_up_pause_resume:
  "(session g = Running
      \<and> collision (ball g) bounceHeight (ob\<lparr>obs_y := obs_y ob + gameSpeed g\<rparr>)
      \<and> \<not> obs_passed ob
      \<and> obs_colorIndex ob = ball_colorIndex (ball g)
      \<and> 0 \<le> obs_colorIndex ob \<and> obs_colorIndex ob < int (length (getCurrentLevelColors level0))
      \<and> level0 < newLevel (score g + 10)
    \<longrightarrow> (\<exists>keep ob' g'.
           updateObstacle Part_000 score0 level0 highScore0 bounceHeight ob g = Inr (keep, ob', g')
           \<and> session g' = PausedLevelUp
           \<and> showPopup g'
           \<and> popupText g' = levelUpText level0 (score g + 10) (newLevel (score g + 10))
           \<and> level g' = newLevel (score g + 10)
           \<and> score g' = score g + 10))
   \<and> (session p = PausedLevelUp
      \<and> index (getCurrentLevelColors (level p)) (ball_colorIndex (ball p)) \<noteq> None
    \<longrightarrow> (\<exists>p'. handlePopupAction Part_000 p = Inr p'
           \<and> session p' = Running
           \<and> \<not> showPopup p'
           \<and> obstacles p' = [] \<and> particles p' = []
           \<and> obstacleTimer (popupReset Part_000 p) = 0
           \<and> obstacleTimer p' = 1
           \<and> score p' = score p \<and> level p' = level p
           \<and> ball_colorIndex (ball p') = ball_colorIndex (ball p)))"
proof (intro conjI impI)
  assume a: "session g = Running
      \<and> collision (ball g) bounceHeight (ob\<lparr>obs_y := obs_y ob + gameSpeed g\<rparr>)
      \<and> \<not> obs_passed ob
      \<and> obs_colorIndex ob = ball_colorIndex (ball g)
      \<and> 0 \<le> obs_colorIndex ob \<and> obs_colorIndex ob < int (length (getCurrentLevelColors level0))
      \<and> level0 < newLevel (score g + 10)"
  then have hook: "gameStartedHook g" by (auto simp: session_def split: if_splits)
  from a updateObstacle_match [of g bounceHeight ob level0 Part_000 score0 highScore0]
  obtain ps r where eq: "updateObstacle Part_000 score0 level0 highScore0 bounceHeight ob g =
           Inr (obs_y ob + gameSpeed g < canvasHeight + 50,
                ob\<lparr>obs_y := obs_y ob + gameSpeed g, obs_passed := True\<rparr>,
                (scoreMatch Part_000 level0 g)\<lparr>particles := particles g @ ps, rng := r\<rparr>)"
    by blast
  let ?g' = "(scoreMatch Part_000 level0 g)\<lparr>particles := particles g @ ps, rng := r\<rparr>"
  have up: "scoreMatch Part_000 level0 g =
     g\<lparr>popupText := levelUpText level0 (score g + 10) (newLevel (score g + 10)),
       showPopup := True, gameRunning := False, level := newLevel (score g + 10),
       score := score g + 10\<rparr>"
    using a by (simp add: scoreMatch_levelUp)
  have "session ?g' = PausedLevelUp"
    using hook by (simp add: up session_def startsWith_levelUpText)
  moreover have "showPopup ?g'"
    "popupText ?g' = levelUpText level0 (score g + 10) (newLevel (score g + 10))"
    "level ?g' = newLevel (score g + 10)" "score ?g' = score g + 10"
    by (simp_all add: up)
  ultimately show "\<exists>keep ob' g'.
           updateObstacle Part_000 score0 level0 highScore0 bounceHeight ob g = Inr (keep, ob', g')
           \<and> session g' = PausedLevelUp
           \<and> showPopup g'
           \<and> popupText g' = levelUpText level0 (score g + 10) (newLevel (score g + 10))
           \<and> level g' = newLevel (score g + 10)
           \<and> score g' = score g + 10"
    using eq by blast
next
  assume b: "session p = PausedLevelUp
      \<and> index (getCurrentLevelColors (level p)) (ball_colorIndex (ball p)) \<noteq> None"
  then have hook: "gameStartedHook p" and notover: "\<not> startsWith (popupText p) ''Game Over''"
    by (auto simp: session_def split: if_splits)
  let ?q = "popupReset Part_000 p"
  have q: "?q = p\<lparr>showPopup := False, gameRunning := True, gameStarted := True,
                  obstacles := [], particles := [], obstacleTimer := 0\<rparr>"
    using notover by (simp add: popupReset_def Let_def)
  have run: "gameRunning ?q" and empty: "obstacles ?q = []" by (simp_all add: q)
  have early: "obstacleTimer ?q + 1 < obstacleFrequency Part_000 (score p)"
    using obstacleFrequency_gt_1 [of Part_000 "score p"] by (simp add: q)
  have ballok: "index (getCurrentLevelColors (level p)) (ball_colorIndex (ball ?q)) \<noteq> None"
    using b by (simp add: q)
  obtain p' where fr: "frame Part_000 False (score p) (level p) (highScore p) ?q = Inr p'"
    using frame_quiet_total [OF run empty early ballok] by blast
  note f = frame_quiet [OF run empty early fr]
  have "handlePopupAction Part_000 p = Inr p'"
    using fr by (simp add: handlePopupAction_def)
  moreover have "session p' = Running" using f hook by (simp add: session_def q)
  moreover have "\<not> showPopup p'" using f by (simp add: q)
  moreover have "obstacles p' = []" "particles p' = []" "obstacleTimer ?q = 0"
    "obstacleTimer p' = 1" "score p' = score p" "level p' = level p"
    "ball_colorIndex (ball p') = ball_colorIndex (ball p)"
    using f by (simp_all add: q updateParticles_def)
  ultimately show "\<exists>p'. handlePopupAction Part_000 p = Inr p'
           \<and> session p' = Running
           \<and> \<not> showPopup p'
           \<and> obstacles p' = [] \<and> particles p' = []
           \<and> obstacleTimer (popupReset Part_000 p) = 0
           \<and> obstacleTimer p' = 1
           \<and> score p' = score p \<and> level p' = level p
           \<and> ball_colorIndex (ball p') = ball_colorIndex (ball p)"
    by blast
qed

theorem level_up_pause_resume_witness:
  "(session (playing 190 1 0) = Running
      \<and> collision (ball (playing 190 1 0)) 0
            ((gateAt 450 0)\<lparr>obs_y := obs_y (gateAt 450 0) + gameSpeed (playing 190 1 0)\<rparr>)
      \<and> \<not> obs_passed (gateAt 450 0)
      \<and> obs_colorIndex (gateAt 450 0) = ball_colorIndex (ball (playing 190 1 0))
      \<and> 0 \<le> obs_colorIndex (gateAt 450 0)
      \<and> obs_colorIndex (gateAt 450 0) < int (length (getCurrentLevelColors 1))
      \<and> 1 < newLevel (score (playing 190 1 0) + 10))
   \<and> (\<exists>keep ob' g'.
         updateObstacle Part_000 190 1 0 0 (gateAt 450 0) (playing 190 1 0) = Inr (keep, ob', g')
         \<and> session g' = PausedLevelUp \<and> showPopup g' \<and> level g' = 2 \<and> score g' = 200)
   \<and> (session ((playing 200 2 0)\<lparr>gameRunning := False, showPopup := True,
          popupText := levelUpText 1 200 2, obstacles := [gateAt 452 0], obstacleTimer := 57\<rparr>)
        = PausedLevelUp
      \<and> index (getCurrentLevelColors 2) 0 \<noteq> (None :: Color option))
   \<and> (\<exists>p'. handlePopupAction Part_000 ((playing 200 2 0)\<lparr>gameRunning := False, showPopup := True,
          popupText := levelUpText 1 200 2, obstacles := [gateAt 452 0], obstacleTimer := 57\<rparr>) = Inr p'
         \<and> session p' = Running \<and> \<not> showPopup p' \<and> obstacles p' = [] \<and> particles p' = []
         \<and> obstacleTimer p' = 1 \<and> score p' = 200 \<and> level p' = 2
         \<and> ball_colorIndex (ball p') = 0)"
proof -
  let ?g = "playing 190 1 0"
  let ?ob = "gateAt 450 0"
  let ?p = "(playing 200 2 0)\<lparr>gameRunning := False, showPopup := True,
          popupText := levelUpText 1 200 2, obstacles := [gateAt 452 0], obstacleTimer := 57\<rparr>"
  have nl: "newLevel 200 = 2" by (simp add: newLevel_div)
  have h1: "session ?g = Running
      \<and> collision (ball ?g) 0 (?ob\<lparr>obs_y := obs_y ?ob + gameSpeed ?g\<rparr>)
      \<and> \<not> obs_passed ?ob
      \<and> obs_colorIndex ?ob = ball_colorIndex (ball ?g)
      \<and> 0 \<le> obs_colorIndex ?ob
      \<and> obs_colorIndex ?ob < int (length (getCurrentLevelColors 1))
      \<and> 1 < newLevel (score ?g + 10)"
    using collision_playing_gate [of 0 190 1 0 0]
    by (simp add: session_playing playing_fields gateAt_def palette_sizes nl)
  have h2: "session ?p = PausedLevelUp
      \<and> index (getCurrentLevelColors (level ?p)) (ball_colorIndex (ball ?p)) \<noteq> None"
    by (simp add: session_def playing_fields startsWith_levelUpText index_def palette_sizes)
  note t = level_up_pause_resume [of ?g 0 ?ob 1 190 0 ?p]
  from t h1 have a: "\<exists>keep ob' g'.
         updateObstacle Part_000 190 1 0 0 ?ob ?g = Inr (keep, ob', g')
         \<and> session g' = PausedLevelUp \<and> showPopup g' \<and> level g' = 2 \<and> score g' = 200"
    by (auto simp: playing_fields nl)
  from t h2 have b: "\<exists>p'. handlePopupAction Part_000 ?p = Inr p'
         \<and> session p' = Running \<and> \<not> showPopup p' \<and> obstacles p' = [] \<and> particles p' = []
         \<and> obstacleTimer p' = 1 \<and> score p' = 200 \<and> level p' = 2
         \<and> ball_colorIndex (ball p') = 0"
    by (auto simp: playing_fields)
  have h2': "session ?p = PausedLevelUp \<and> index (getCurrentLevelColors 2) 0 \<noteq> (None :: Color option)"
    using h2 by (simp add: playing_fields)
  show ?thesis
    by (rule conjI [OF h1 conjI [OF a conjI [OF h2' b]]])
qed

text \<open>
  C10. The high score never goes down over a run of the component: whatever the events
  (frames, input, the popup's button, the start button), the high score at the end is at
  least the one at the beginning. A single event leaves it as it is unless it is a frame
  that ends the game, which sets it to the maximum of the score of the last render and the
  former high score. The popup's button, also after a game over, leaves it as it is.
\<close>

theorem highScore_never_decreases:
  "(\<forall>g'. run v es g = Inr g' \<longrightarrow> highScore g \<le> highScore g')
   \<and> (\<forall>g'. step v e g = Inr g' \<longrightarrow>
        highScore g' = highScore g
        \<or> (e = Frame \<and> \<not> gameRunning g' \<and> highScore g' = max (score g) (highScore g)))
   \<and> (\<forall>g'. handlePopupAction v g = Inr g' \<longrightarrow> highScore g' = highScore g)"
  using run_highScore [of v es g] step_highScore [of v e g] handlePopupAction_highScore [of v g]
  by blast

theorem highScore_never_decreases_witness:
  "\<exists>g1 g2. step Part_000 Frame ((playing 30 1 1)\<lparr>obstacles := [gateAt 450 0]\<rparr>) = Inr g1
     \<and> handlePopupAction Part_000 g1 = Inr g2
     \<and> run Part_000 [Frame, PopupButton] ((playing 30 1 1)\<lparr>obstacles := [gateAt 450 0]\<rparr>) = Inr g2
     \<and> highScore ((playing 30 1 1)\<lparr>obstacles := [gateAt 450 0]\<rparr>) = 0
     \<and> highScore g1 = 30 \<and> highScore g2 = 30 \<and> score g2 = 0"
proof -
  let ?g = "(playing 30 1 1)\<lparr>obstacles := [gateAt 450 0]\<rparr>"
  have hit: "\<forall>bh. - 5 \<le> bh \<and> bh \<le> 5 \<longrightarrow>
        collision (ball ?g) bh
          ((gateAt 450 0)\<lparr>obs_y := obs_y (gateAt 450 0)
             + (2 + real_of_int \<lfloor>real_of_int (score ?g) / 100\<rfloor> * speedStep Part_000)\<rparr>)"
    using collision_playing_gate [of _ 30 1 1 0] by (simp add: playing_fields)
  have fresh: "\<not> obs_passed (gateAt 450 0)" by (simp add: gateAt_def)
  have "\<exists>g'. frame Part_000 True (score ?g) (level ?g) (highScore ?g) ?g = Inr g'
      \<and> obstacles g' = [] \<and> \<not> gameRunning g'
      \<and> highScore g' = max (score ?g) (highScore ?g) \<and> score g' = score ?g \<and> showPopup g'
      \<and> startsWith (popupText g') ''Game Over''"
  proof (rule frame_game_over [OF _ _ _ fresh _ hit])
    show "gameRunning ?g" by (simp add: playing_fields)
    show "obstacles ?g = [gateAt 450 0]" by simp
    show "obstacleTimer ?g + 1 < obstacleFrequency Part_000 (score ?g)"
      by (simp add: playing_fields obstacleFrequency_div)
    show "obs_colorIndex (gateAt 450 0) \<noteq> ball_colorIndex (ball ?g)"
      by (simp add: playing_fields gateAt_def)
    show "index (getCurrentLevelColors (level ?g)) (ball_colorIndex (ball ?g)) \<noteq> None"
      by (simp add: playing_fields index_def palette_sizes)
  qed
  then obtain g1 where fr: "frame Part_000 True (score ?g) (level ?g) (highScore ?g) ?g = Inr g1"
    and g1: "\<not> gameRunning g1" "highScore g1 = max (score ?g) (highScore ?g)"
      "score g1 = score ?g" "showPopup g1" "startsWith (popupText g1) ''Game Over''"
    by blast
  have s1: "step Part_000 Frame ?g = Inr g1"
    using fr by (simp add: step_def animate_def playing_fields)
  from frame_result [OF fr] g1(3)
  have hook1: "gameStartedHook g1" and lev1: "level g1 = 1"
    by (simp_all add: playing_fields newLevel_div)
  have h1: "highScore g1 = 30" using g1(2) by (simp add: playing_fields)
  let ?q = "popupReset Part_000 g1"
  have q: "gameRunning ?q" "obstacles ?q = []" "obstacleTimer ?q = 0"
    "ball_colorIndex (ball ?q) = 0" "score ?q = 0"
    using g1(5) by (simp_all add: popupReset_def Let_def)
  have early: "obstacleTimer ?q + 1 < obstacleFrequency Part_000 (score g1)"
    using obstacleFrequency_gt_1 [of Part_000 "score g1"] by (simp add: q)
  have ballok: "index (getCurrentLevelColors (level g1)) (ball_colorIndex (ball ?q)) \<noteq> None"
    by (simp add: lev1 q index_def palette_sizes)
  obtain g2 where fr2: "frame Part_000 False (score g1) (level g1) (highScore g1) ?q = Inr g2"
    using frame_quiet_total [OF q(1) q(2) early ballok] by blast
  have p2: "handlePopupAction Part_000 g1 = Inr g2"
    using fr2 by (simp add: handlePopupAction_def)
  have s2: "step Part_000 PopupButton g1 = Inr g2"
    using p2 hook1 g1(4) by (simp add: step_def)
  have r: "run Part_000 [Frame, PopupButton] ?g = Inr g2"
    using s1 s2 by simp
  have sc2: "score g2 = 0"
    using frame_quiet [OF q(1) q(2) early fr2] by (simp add: q)
  note t = highScore_never_decreases [of Part_000 "[Frame, PopupButton]" ?g Frame]
  note t1 = highScore_never_decreases [of Part_000 "[]" g1 PopupButton]
  from t r have "highScore ?g \<le> highScore g2" by blast
  moreover from t1 p2 have "highScore g2 = highScore g1" by blast
  moreover have "highScore ?g = 0" by (simp add: playing_fields)
  ultimately show ?thesis using s1 p2 r h1 sc2 by auto
qed

end
